theory Spec2Isabelle
  imports Complex_Main
begin

section \<open>Strings, dictionaries and time\<close>

text \<open>
  Python strings are modelled as \<open>string\<close> (ASCII text), \<open>str.lower\<close>, \<open>str.upper\<close> and
  \<open>str.title\<close> act on the letters A-Z and a-z, and \<open>p in s\<close> is the substring test.
\<close>

definition is_upper :: "char \<Rightarrow> bool" where
  "is_upper c = (65 \<le> (of_char c :: nat) \<and> (of_char c :: nat) \<le> 90)"

definition is_lower :: "char \<Rightarrow> bool" where
  "is_lower c = (97 \<le> (of_char c :: nat) \<and> (of_char c :: nat) \<le> 122)"

definition lower_char :: "char \<Rightarrow> char" where
  "lower_char c = (if is_upper c then char_of ((of_char c :: nat) + 32) else c)"

definition upper_char :: "char \<Rightarrow> char" where
  "upper_char c = (if is_lower c then char_of ((of_char c :: nat) - 32) else c)"

definition lower :: "string \<Rightarrow> string" where
  "lower s = map lower_char s"

definition upper :: "string \<Rightarrow> string" where
  "upper s = map upper_char s"

text \<open>\<open>str.title\<close>: the first letter of every run of letters in upper case, the rest in lower case.\<close>

fun title_from :: "bool \<Rightarrow> string \<Rightarrow> string" where
  "title_from prev [] = []"
| "title_from prev (c # cs) =
     (if is_upper c \<or> is_lower c
      then (if prev then lower_char c else upper_char c) # title_from True cs
      else c # title_from False cs)"

definition title :: "string \<Rightarrow> string" where
  "title s = title_from False s"

text \<open>\<open>s.replace(a, b)\<close> for single characters \<open>a\<close> and \<open>b\<close>.\<close>

definition replace :: "char \<Rightarrow> char \<Rightarrow> string \<Rightarrow> string" where
  "replace a b s = map (\<lambda>c. if c = a then b else c) s"

fun startswith :: "string \<Rightarrow> string \<Rightarrow> bool" where
  "startswith s [] = True"
| "startswith [] (p # ps) = False"
| "startswith (c # cs) (p # ps) = (c = p \<and> startswith cs ps)"

text \<open>\<open>contains s p\<close> is Python's \<open>p in s\<close>.\<close>

fun contains :: "string \<Rightarrow> string \<Rightarrow> bool" where
  "contains [] p = (p = [])"
| "contains (c # cs) p = (startswith (c # cs) p \<or> contains cs p)"

text \<open>\<open>sep.join(parts)\<close>.\<close>

fun join :: "string \<Rightarrow> string list \<Rightarrow> string" where
  "join sep [] = []"
| "join sep [x] = x"
| "join sep (x # y # ys) = x @ sep @ join sep (y # ys)"

text \<open>\<open>str(n)\<close> for an integer, as an f-string prints it.\<close>

fun digits :: "nat \<Rightarrow> string" where
  "digits n = (if n < 10 then [char_of (48 + n)] else digits (n div 10) @ [char_of (48 + n mod 10)])"

declare digits.simps [simp del]

definition str_int :: "int \<Rightarrow> string" where
  "str_int i = (if i < 0 then CHR ''-'' # digits (nat (- i)) else digits (nat i))"

text \<open>
  A Python \<open>dict\<close> keeps insertion order: it is an association list with distinct keys.
  Assigning to a key that is present replaces the value in place, assigning to a new key
  appends the entry.
\<close>

fun dict_get :: "('k \<times> 'v) list \<Rightarrow> 'k \<Rightarrow> 'v option" where
  "dict_get [] k = None"
| "dict_get ((k', v) # d) k = (if k' = k then Some v else dict_get d k)"

fun dict_set :: "('k \<times> 'v) list \<Rightarrow> 'k \<Rightarrow> 'v \<Rightarrow> ('k \<times> 'v) list" where
  "dict_set [] k v = [(k, v)]"
| "dict_set ((k', v') # d) k v = (if k' = k then (k, v) # d else (k', v') # dict_set d k v)"

definition dict_values :: "('k \<times> 'v) list \<Rightarrow> 'v list" where
  "dict_values d = map snd d"

text \<open>
  \<open>dict_upd d k f\<close>: a change \<open>f\<close> made in place to the object stored under \<open>k\<close>, and
  nothing when \<open>d.get(k)\<close> is \<open>None\<close>.
\<close>

definition dict_upd :: "('k \<times> 'v) list \<Rightarrow> 'k \<Rightarrow> ('v \<Rightarrow> 'v) \<Rightarrow> ('k \<times> 'v) list" where
  "dict_upd d k f = (case dict_get d k of None \<Rightarrow> d | Some v \<Rightarrow> dict_set d k (f v))"

text \<open>
  A \<open>datetime\<close> is the number of microseconds since \<open>datetime.min\<close>, the start of year
  1; the last one, \<open>datetime.max\<close>, is 9999-12-31 23:59:59.999999. The pure value of
  \<open>timedelta(minutes=m)\<close> is \<open>m\<close> minutes in that unit. Every operation reads the clock
  (\<open>datetime.utcnow()\<close>) as its argument \<open>now\<close>.
\<close>

type_synonym datetime = int

definition timedelta_minutes :: "int \<Rightarrow> int" where
  "timedelta_minutes m = m * 60000000"

definition datetime_max :: datetime where
  "datetime_max = 315537897599999999"

text \<open>
  The arithmetic of the module \<open>datetime\<close> raises \<open>OverflowError\<close>, here with CPython's
  messages. The constructor \<open>timedelta(minutes=m)\<close> raises it when the days of the
  duration, \<open>m // 1440\<close>, lie outside -999999999 to 999999999; the sum of a datetime and a
  timedelta raises it when the result lies outside \<open>datetime.min\<close> to \<open>datetime.max\<close>.
\<close>

datatype error = OverflowError string

definition timedelta :: "int \<Rightarrow> error + int" where
  "timedelta m =
     (let days = m div 1440
      in if - 999999999 \<le> days \<and> days \<le> 999999999 then Inr (timedelta_minutes m)
         else if - 2147483648 \<le> days \<and> days \<le> 2147483647
         then Inl (OverflowError (''days='' @ str_int days @ ''; must have magnitude <= 999999999''))
         else Inl (OverflowError ''Python int too large to convert to C int''))"

definition datetime_add :: "datetime \<Rightarrow> int \<Rightarrow> error + datetime" where
  "datetime_add t d =
     (if 0 \<le> t + d \<and> t + d \<le> datetime_max then Inr (t + d)
      else Inl (OverflowError ''date value out of range''))"

text \<open>\<open>now - timedelta(minutes=m)\<close> and \<open>now + timedelta(minutes=m)\<close>.\<close>

definition minus_minutes :: "datetime \<Rightarrow> int \<Rightarrow> error + datetime" where
  "minus_minutes now m =
     (case timedelta m of Inl err \<Rightarrow> Inl err | Inr d \<Rightarrow> datetime_add now (- d))"

definition plus_minutes :: "datetime \<Rightarrow> int \<Rightarrow> error + datetime" where
  "plus_minutes now m =
     (case timedelta m of Inl err \<Rightarrow> Inl err | Inr d \<Rightarrow> datetime_add now d)"


section \<open>Incident Manager\<close>

datatype IncidentStatus =
  INC_NEW | INC_ANALYZING | INC_HEALING | INC_AWAITING_APPROVAL | INC_RESOLVED | INC_FAILED

datatype IncidentSeverity = CRITICAL | HIGH | MEDIUM | LOW

text \<open>
  The fields of the schemas that the store and the ingestion routes read or write; the
  texts \<open>title\<close> and \<open>description\<close>, which no operation reads, are left out.
\<close>

record AnomalyEventInput =
  ae_event_id :: string
  anomaly_type :: string
  ae_severity :: string
  ae_target_service :: string
  ae_target_namespace :: string

record LogAnalysisEventInput =
  le_event_id :: string
  service_name :: string
  namespace :: string
  error_count :: int
  le_severity :: string
  le_root_cause :: string
  le_confidence :: rat
  le_recommended_actions :: "string list"

record Incident =
  incident_id :: string
  status :: IncidentStatus
  severity :: IncidentSeverity
  target_service :: string
  target_namespace :: string
  created_at :: datetime
  updated_at :: datetime
  resolved_at :: "datetime option"
  event_ids :: "string list"
  event_count :: int
  root_cause :: "string option"
  confidence :: "rat option"
  healing_plan_id :: "string option"
  healing_actions :: "string list"
  healing_result :: "string option"

record IncidentSettings =
  incident_correlation_window_minutes :: int
  healing_enabled :: bool
  approval_required :: bool

text \<open>\<open>IncidentStore._incidents\<close>: a dict from incident id to incident.\<close>

type_synonym IncidentStore = "(string \<times> Incident) list"

definition create_incident :: "IncidentStore \<Rightarrow> Incident \<Rightarrow> IncidentStore" where
  "create_incident store incident = dict_set store (incident_id incident) incident"

definition get_incident :: "IncidentStore \<Rightarrow> string \<Rightarrow> Incident option" where
  "get_incident store iid = dict_get store iid"

text \<open>
  \<open>add_event_to_incident\<close> changes the stored object in place; an unknown id leaves the
  store as it is (the source returns \<open>None\<close>).
\<close>

definition add_event_to_incident :: "IncidentStore \<Rightarrow> string \<Rightarrow> string \<Rightarrow> datetime \<Rightarrow> IncidentStore" where
  "add_event_to_incident store iid eid now =
     (case dict_get store iid of
        None \<Rightarrow> store
      | Some incident \<Rightarrow>
          (let ids = event_ids incident @ [eid]
           in dict_set store iid
                (incident\<lparr>event_ids := ids, event_count := int (length ids), updated_at := now\<rparr>)))"

text \<open>
  \<open>update_incident\<close> with the updates the log-analysis route passes: root cause,
  confidence and healing actions; the incident is rebuilt and stored under the same key.
\<close>

definition update_incident_analysis ::
  "IncidentStore \<Rightarrow> string \<Rightarrow> string \<Rightarrow> rat \<Rightarrow> string list \<Rightarrow> datetime \<Rightarrow> IncidentStore" where
  "update_incident_analysis store iid rc conf acts now =
     (case dict_get store iid of
        None \<Rightarrow> store
      | Some incident \<Rightarrow>
          dict_set store iid
            (incident\<lparr>root_cause := Some rc, confidence := Some conf,
                      healing_actions := acts, updated_at := now\<rparr>))"

definition is_related :: "string \<Rightarrow> string \<Rightarrow> datetime \<Rightarrow> Incident \<Rightarrow> bool" where
  "is_related service ns cutoff incident =
     (status incident \<notin> {INC_RESOLVED, INC_FAILED}
      \<and> target_service incident = service
      \<and> target_namespace incident = ns
      \<and> created_at incident \<ge> cutoff)"

text \<open>
  \<open>find_related_incident\<close> computes the cutoff first; when that raises, the route that
  called it ends with the exception, before it has touched the store.
\<close>

definition find_related_incident ::
  "IncidentStore \<Rightarrow> string \<Rightarrow> string \<Rightarrow> int \<Rightarrow> datetime \<Rightarrow> error + Incident option" where
  "find_related_incident store service ns window_minutes now =
     (case minus_minutes now window_minutes of
        Inl err \<Rightarrow> Inl err
      | Inr cutoff \<Rightarrow> Inr (List.find (is_related service ns cutoff) (dict_values store)))"

definition parse_severity :: "string \<Rightarrow> IncidentSeverity" where
  "parse_severity s =
     (if s = ''critical'' then CRITICAL
      else if s = ''high'' then HIGH
      else if s = ''medium'' then MEDIUM
      else if s = ''low'' then LOW
      else MEDIUM)"

datatype IngestAction = Correlated | Created

text \<open>
  The two ingestion routes. \<open>new_id\<close> is the \<open>uuid4\<close> drawn for a new incident. The call
  that asks the agent to heal a new incident does not touch the store and is left out. A
  route that raises answers with the error and leaves the store as it was.
\<close>

definition receive_anomaly_event ::
  "IncidentSettings \<Rightarrow> IncidentStore \<Rightarrow> datetime \<Rightarrow> string \<Rightarrow> AnomalyEventInput
     \<Rightarrow> error + ((IngestAction \<times> string) \<times> IncidentStore)" where
  "receive_anomaly_event settings store now new_id event =
     (case find_related_incident store (ae_target_service event) (ae_target_namespace event)
             (incident_correlation_window_minutes settings) now of
        Inl err \<Rightarrow> Inl err
      | Inr (Some existing) \<Rightarrow>
          Inr ((Correlated, incident_id existing),
               add_event_to_incident store (incident_id existing) (ae_event_id event) now)
      | Inr None \<Rightarrow>
          (let incident = \<lparr>incident_id = new_id, status = INC_NEW,
                 severity = parse_severity (ae_severity event),
                 target_service = ae_target_service event,
                 target_namespace = ae_target_namespace event,
                 created_at = now, updated_at = now, resolved_at = None,
                 event_ids = [ae_event_id event], event_count = 1,
                 root_cause = Some (''Possible cause: '' @ anomaly_type event),
                 confidence = Some (7 / 10),
                 healing_plan_id = None, healing_actions = [], healing_result = None\<rparr>
           in Inr ((Created, new_id), create_incident store incident)))"

definition receive_log_analysis_event ::
  "IncidentSettings \<Rightarrow> IncidentStore \<Rightarrow> datetime \<Rightarrow> string \<Rightarrow> LogAnalysisEventInput
     \<Rightarrow> error + ((IngestAction \<times> string) \<times> IncidentStore)" where
  "receive_log_analysis_event settings store now new_id event =
     (case find_related_incident store (service_name event) (namespace event)
             (incident_correlation_window_minutes settings) now of
        Inl err \<Rightarrow> Inl err
      | Inr (Some existing) \<Rightarrow>
          Inr ((Correlated, incident_id existing),
               update_incident_analysis
                 (add_event_to_incident store (incident_id existing) (le_event_id event) now)
                 (incident_id existing) (le_root_cause event) (le_confidence event)
                 (le_recommended_actions event) now)
      | Inr None \<Rightarrow>
          (let incident = \<lparr>incident_id = new_id, status = INC_ANALYZING,
                 severity = parse_severity (le_severity event),
                 target_service = service_name event,
                 target_namespace = namespace event,
                 created_at = now, updated_at = now, resolved_at = None,
                 event_ids = [le_event_id event], event_count = error_count event,
                 root_cause = Some (le_root_cause event),
                 confidence = Some (le_confidence event),
                 healing_plan_id = None, healing_actions = le_recommended_actions event,
                 healing_result = None\<rparr>
           in Inr ((Created, new_id), create_incident store incident)))"

text \<open>A signal is one of the two events, with the clock and the fresh id of its request.\<close>

datatype Signal = Anomaly AnomalyEventInput | LogAnalysis LogAnalysisEventInput

fun signal_service :: "Signal \<Rightarrow> string" where
  "signal_service (Anomaly e) = ae_target_service e"
| "signal_service (LogAnalysis e) = service_name e"

fun signal_namespace :: "Signal \<Rightarrow> string" where
  "signal_namespace (Anomaly e) = ae_target_namespace e"
| "signal_namespace (LogAnalysis e) = namespace e"

fun signal_event_id :: "Signal \<Rightarrow> string" where
  "signal_event_id (Anomaly e) = ae_event_id e"
| "signal_event_id (LogAnalysis e) = le_event_id e"

fun ingest ::
  "IncidentSettings \<Rightarrow> IncidentStore \<Rightarrow> datetime \<times> string \<times> Signal
     \<Rightarrow> error + ((IngestAction \<times> string) \<times> IncidentStore)" where
  "ingest settings store (now, new_id, Anomaly e) = receive_anomaly_event settings store now new_id e"
| "ingest settings store (now, new_id, LogAnalysis e) =
     receive_log_analysis_event settings store now new_id e"

text \<open>The store after one request, and after a sequence of requests.\<close>

definition store_after ::
  "IncidentStore \<Rightarrow> error + ((IngestAction \<times> string) \<times> IncidentStore) \<Rightarrow> IncidentStore" where
  "store_after store r = (case r of Inl err \<Rightarrow> store | Inr (response, store') \<Rightarrow> store')"

fun ingest_all ::
  "IncidentSettings \<Rightarrow> IncidentStore \<Rightarrow> (datetime \<times> string \<times> Signal) list \<Rightarrow> IncidentStore" where
  "ingest_all settings store [] = store"
| "ingest_all settings store (x # xs) =
     ingest_all settings (store_after store (ingest settings store x)) xs"

text \<open>The open incidents of one target, and the stores whose keys are the ids of their incidents.\<close>

definition is_open :: "Incident \<Rightarrow> bool" where
  "is_open incident = (status incident \<notin> {INC_RESOLVED, INC_FAILED})"

definition open_for :: "IncidentStore \<Rightarrow> string \<Rightarrow> string \<Rightarrow> Incident list" where
  "open_for store service ns =
     filter (\<lambda>i. is_open i \<and> target_service i = service \<and> target_namespace i = ns)
       (dict_values store)"

definition wf_store :: "IncidentStore \<Rightarrow> bool" where
  "wf_store store = (distinct (map fst store) \<and> list_all (\<lambda>(k, i). incident_id i = k) store)"

text \<open>
  What the claims about correlation speak of: a signal correlates when some stored incident
  of its target is open and was created within the window; and the cutoff of an ingest is
  in range when the window is a duration that \<open>timedelta\<close> can hold and the window before
  now is a datetime.
\<close>

definition correlates :: "IncidentStore \<Rightarrow> string \<Rightarrow> string \<Rightarrow> int \<Rightarrow> datetime \<Rightarrow> bool" where
  "correlates store service ns w now =
     (\<exists>i \<in> set (dict_values store).
        status i \<notin> {INC_RESOLVED, INC_FAILED} \<and> target_service i = service
        \<and> target_namespace i = ns \<and> created_at i \<ge> now - timedelta_minutes w)"

definition cutoff_in_range :: "datetime \<Rightarrow> int \<Rightarrow> bool" where
  "cutoff_in_range now w =
     (- 999999999 \<le> w div 1440 \<and> w div 1440 \<le> 999999999
      \<and> 0 \<le> now - timedelta_minutes w \<and> now - timedelta_minutes w \<le> datetime_max)"

definition related_key :: "Incident \<Rightarrow> IncidentStatus \<times> string \<times> string \<times> datetime" where
  "related_key i = (status i, target_service i, target_namespace i, created_at i)"

text \<open>
  Concrete inputs: the default window of 15 minutes, a window of two thousand million
  minutes, clock readings counted in minutes from 2024-01-01 00:00, and anomalies of one
  target.
\<close>

definition example_settings :: IncidentSettings where
  "example_settings =
     \<lparr>incident_correlation_window_minutes = 15, healing_enabled = True, approval_required = False\<rparr>"

definition wide_settings :: IncidentSettings where
  "wide_settings =
     \<lparr>incident_correlation_window_minutes = 2000000000, healing_enabled = True,
      approval_required = False\<rparr>"

definition at_minute :: "int \<Rightarrow> datetime" where
  "at_minute m = timedelta_minutes (1063994400 + m)"

definition checkout_anomaly :: "string \<Rightarrow> AnomalyEventInput" where
  "checkout_anomaly eid =
     \<lparr>ae_event_id = eid, anomaly_type = ''error_rate_spike'', ae_severity = ''high'',
      ae_target_service = ''checkout'', ae_target_namespace = ''default''\<rparr>"

definition two_signals :: "(datetime \<times> string \<times> Signal) list" where
  "two_signals = [(at_minute 0, ''inc-1'', Anomaly (checkout_anomaly ''e1'')),
                  (at_minute 16, ''inc-2'', Anomaly (checkout_anomaly ''e2''))]"

definition one_store :: IncidentStore where
  "one_store =
     ingest_all example_settings [] [(at_minute 0, ''inc-1'', Anomaly (checkout_anomaly ''e1''))]"

section \<open>AutoHeal Agent: schemas\<close>

text \<open>
  Modelled from the spec: the agent's \<open>src/api/schemas.py\<close> is not among the sources. The
  types below take the fields and defaults that \<open>decision_maker.py\<close>, \<open>ooda_engine.py\<close> and
  the routes use, and the states and fields that sections 3 and 4.4 of the specification
  list: a new HealingResult has no plan, both counters at 0, \<open>started_at\<close> stamped at
  creation and no completion time or message.
\<close>

datatype ActionType =
  RESTART_POD | SCALE_UP | SCALE_DOWN | ROLLBACK | INCREASE_RESOURCES
  | CIRCUIT_BREAKER | FAILOVER | RATE_LIMIT | CUSTOM

datatype HealingStatus =
  PENDING | OBSERVING | ORIENTING | DECIDING | ACTING | VALIDATING
  | COMPLETED | FAILED | CANCELLED

fun status_value :: "HealingStatus \<Rightarrow> string" where
  "status_value PENDING = ''pending''"
| "status_value OBSERVING = ''observing''"
| "status_value ORIENTING = ''orienting''"
| "status_value DECIDING = ''deciding''"
| "status_value ACTING = ''acting''"
| "status_value VALIDATING = ''validating''"
| "status_value COMPLETED = ''completed''"
| "status_value FAILED = ''failed''"
| "status_value CANCELLED = ''cancelled''"

datatype HealingMode = AUTO | SEMI_AUTO | MANUAL

text \<open>The values of an action's parameter dict.\<close>

datatype Param = PStr string | PInt int | PFloat rat

record HealingAction =
  action_id :: string
  action_type :: ActionType
  target :: string
  parameters :: "(string \<times> Param) list"
  reasoning :: string
  risk_level :: string
  reversible :: bool

record HealingPlan =
  plan_id :: string
  pl_incident_id :: string
  pl_observation :: string
  pl_orientation :: string
  pl_decision :: string
  actions :: "HealingAction list"
  estimated_duration_seconds :: int
  pl_confidence :: rat
  risk_assessment :: string

record HealingRequest =
  rq_incident_id :: string
  rq_target_service :: string
  rq_target_namespace :: string
  rq_severity :: string
  rq_root_cause :: "string option"
  recommended_actions :: "string list"
  force :: bool

record HealingResult =
  healing_id :: string
  hr_incident_id :: string
  hr_status :: HealingStatus
  plan :: "HealingPlan option"
  actions_executed :: int
  actions_successful :: int
  started_at :: "datetime option"
  completed_at :: "datetime option"
  result_message :: "string option"
  error_message :: "string option"

record OODAState =
  os_healing_id :: string
  phase :: string
  observation :: "string option"
  orientation :: "string option"
  decision :: "string option"

record AgentSettings =
  healing_mode :: HealingMode
  max_concurrent_healings :: int
  cooldown_minutes :: int

definition new_healing_result :: "string \<Rightarrow> string \<Rightarrow> HealingStatus \<Rightarrow> datetime \<Rightarrow> HealingResult" where
  "new_healing_result hid iid st now =
     \<lparr>healing_id = hid, hr_incident_id = iid, hr_status = st, plan = None,
      actions_executed = 0, actions_successful = 0, started_at = Some now,
      completed_at = None, result_message = None, error_message = None\<rparr>"


section \<open>Decision Maker\<close>

text \<open>\<open>CAUSE_ACTION_MAP\<close>, in the order the dict literal lists its keys.\<close>

definition CAUSE_ACTION_MAP :: "(string \<times> (ActionType \<times> string) list) list" where
  "CAUSE_ACTION_MAP =
     [(''error_rate_spike'',
         [(RESTART_POD, ''Restart problematic pods to clear state''),
          (SCALE_UP, ''Scale up to handle load if needed'')]),
      (''latency_spike'',
         [(SCALE_UP, ''Scale up to reduce load per instance''),
          (CIRCUIT_BREAKER, ''Enable circuit breaker for slow dependencies'')]),
      (''cpu_overload'',
         [(SCALE_UP, ''Add more replicas to distribute load''),
          (INCREASE_RESOURCES, ''Increase CPU limits if scaling not possible'')]),
      (''memory_overload'',
         [(RESTART_POD, ''Restart pods to clear memory''),
          (INCREASE_RESOURCES, ''Increase memory limits'')]),
      (''pod_crash_loop'',
         [(ROLLBACK, ''Rollback to previous stable version''),
          (RESTART_POD, ''Restart with fresh state'')]),
      (''connection_error'',
         [(CIRCUIT_BREAKER, ''Enable circuit breaker''),
          (FAILOVER, ''Failover to healthy instances'')]),
      (''timeout'',
         [(SCALE_UP, ''Add capacity to reduce latency''),
          (RATE_LIMIT, ''Apply rate limiting to prevent overload'')]),
      (''out_of_memory'',
         [(RESTART_POD, ''Restart to clear memory state''),
          (INCREASE_RESOURCES, ''Increase memory allocation'')]),
      (''database'',
         [(RESTART_POD, ''Restart to reset connections''),
          (FAILOVER, ''Failover to replica if available'')])]"

text \<open>Python's truth value of an optional string: \<open>None\<close> and the empty string are false.\<close>

fun truthy :: "string option \<Rightarrow> bool" where
  "truthy None = False"
| "truthy (Some s) = (s \<noteq> [])"

definition analyze_incident :: "string option \<Rightarrow> string \<Rightarrow> string list \<Rightarrow> string" where
  "analyze_incident rc sev recs =
     (let parts1 =
            (if truthy rc
             then (let normalized = replace CHR ''-'' CHR ''_'' (replace CHR '' '' CHR ''_'' (lower (the rc)))
                   in [''Root cause identified: '' @ the rc,
                       (if list_ex (\<lambda>pattern. contains normalized pattern) (map fst CAUSE_ACTION_MAP)
                        then ''Known pattern detected - automated healing available''
                        else ''Unknown pattern - conservative approach recommended'')])
             else [''No root cause identified - will attempt general recovery'']);
          parts2 =
            (if sev = ''critical'' \<or> sev = ''high''
             then [upper sev @ '' severity - immediate action required'']
             else [title sev @ '' severity - standard remediation'']);
          parts3 =
            (if recs \<noteq> []
             then [''Recommendations available: '' @ digits (length recs) @ '' actions'']
             else [])
      in join '' | '' (parts1 @ parts2 @ parts3))"

text \<open>
  \<open>_select_actions\<close>. The first loop stops at the first pattern found in the observation;
  the second scans the first two recommendations; the third removes repeated action types.
\<close>

fun match_patterns ::
  "string \<Rightarrow> (string \<times> (ActionType \<times> string) list) list \<Rightarrow> (ActionType \<times> string) list" where
  "match_patterns observation_lower [] = []"
| "match_patterns observation_lower ((pattern, acts) # rest) =
     (if contains observation_lower (replace CHR ''_'' CHR '' '' pattern)
         \<or> contains observation_lower pattern
      then take 2 acts
      else match_patterns observation_lower rest)"

fun scan_recommended ::
  "(ActionType \<times> string) list \<Rightarrow> string list \<Rightarrow> (ActionType \<times> string) list" where
  "scan_recommended selected [] = selected"
| "scan_recommended selected (rec # recs) =
     (let rec_lower = lower rec
      in scan_recommended
           (if contains rec_lower ''restart'' then selected @ [(RESTART_POD, rec)]
            else if contains rec_lower ''scale'' then selected @ [(SCALE_UP, rec)]
            else if contains rec_lower ''rollback'' then selected @ [(ROLLBACK, rec)]
            else if contains rec_lower ''circuit'' then selected @ [(CIRCUIT_BREAKER, rec)]
            else selected)
           recs)"

fun deduplicate ::
  "ActionType set \<Rightarrow> (ActionType \<times> string) list \<Rightarrow> (ActionType \<times> string) list
     \<Rightarrow> (ActionType \<times> string) list" where
  "deduplicate seen unique [] = unique"
| "deduplicate seen unique ((atype, r) # rest) =
     (if atype \<notin> seen then deduplicate (insert atype seen) (unique @ [(atype, r)]) rest
      else deduplicate seen unique rest)"

definition select_actions :: "string \<Rightarrow> string list \<Rightarrow> (ActionType \<times> string) list" where
  "select_actions obs recs =
     (let observation_lower = lower obs;
          selected = match_patterns observation_lower CAUSE_ACTION_MAP;
          selected = scan_recommended selected (take 2 recs);
          unique = deduplicate {} [] selected
      in take 3 unique)"

definition get_action_parameters :: "ActionType \<Rightarrow> string \<Rightarrow> string \<Rightarrow> (string \<times> Param) list" where
  "get_action_parameters atype service ns =
     (let params = [(''service'', PStr service), (''namespace'', PStr ns)]
      in if atype = RESTART_POD
         then dict_set (dict_set params ''strategy'' (PStr ''rolling'')) ''max_unavailable'' (PInt 1)
         else if atype = SCALE_UP
         then dict_set (dict_set params ''increment'' (PInt 1)) ''max_replicas'' (PInt 10)
         else if atype = ROLLBACK
         then dict_set params ''revision'' (PInt (- 1))
         else if atype = INCREASE_RESOURCES
         then dict_set (dict_set params ''cpu_multiplier'' (PFloat (3 / 2)))
                ''memory_multiplier'' (PFloat (3 / 2))
         else params)"

definition assess_action_risk :: "ActionType \<Rightarrow> string" where
  "assess_action_risk atype =
     (if atype \<in> {ROLLBACK, SCALE_DOWN, CUSTOM} then ''high''
      else if atype \<in> {INCREASE_RESOURCES, FAILOVER} then ''medium''
      else ''low'')"

definition assess_plan_risk :: "HealingAction list \<Rightarrow> string" where
  "assess_plan_risk acts =
     (let risks = map risk_level acts
      in if ''high'' \<in> set risks
         then ''HIGH: Plan contains high-risk actions. Manual review recommended.''
         else if ''medium'' \<in> set risks
         then ''MEDIUM: Plan contains moderately risky actions. Monitor closely.''
         else ''LOW: Plan contains low-risk, reversible actions.'')"

text \<open>
  \<open>_calculate_confidence\<close>. The float constants are the decimal fractions they denote and
  the sums are exact, so a value here is the decimal that the code's binary float
  approximates: where both text adjustments apply, the code's 0.7 + 0.15 - 0.2 is the
  float next below 0.65 and the value here is 0.65. Its second argument is the text
  \<open>generate_plan\<close> passes: the observation.
\<close>

definition calculate_confidence :: "HealingAction list \<Rightarrow> string \<Rightarrow> rat" where
  "calculate_confidence acts obs =
     (let base_confidence = 7 / 10;
          base_confidence =
            (if contains (lower obs) ''known pattern'' then base_confidence + 15 / 100
             else base_confidence);
          base_confidence =
            (if contains (lower obs) ''unknown pattern'' then base_confidence - 2 / 10
             else base_confidence);
          base_confidence =
            (if list_ex (\<lambda>a. risk_level a = ''high'') acts then base_confidence - 1 / 10
             else base_confidence)
      in max (3 / 10) (min (95 / 100) base_confidence))"

text \<open>
  \<open>generate_plan\<close>. \<open>ids\<close> is the sequence of \<open>uuid4\<close> values the call draws: \<open>ids 0\<close> for
  the plan, then one per action.
\<close>

fun build_actions ::
  "(nat \<Rightarrow> string) \<Rightarrow> nat \<Rightarrow> string \<Rightarrow> string \<Rightarrow> (ActionType \<times> string) list \<Rightarrow> HealingAction list" where
  "build_actions ids k service ns [] = []"
| "build_actions ids k service ns ((atype, r) # rest) =
     \<lparr>action_id = ids k, action_type = atype, target = ns @ ''/'' @ service,
      parameters = get_action_parameters atype service ns, reasoning = r,
      risk_level = assess_action_risk atype, reversible = (atype \<noteq> CUSTOM)\<rparr>
     # build_actions ids (Suc k) service ns rest"

definition default_action :: "string \<Rightarrow> string \<Rightarrow> string \<Rightarrow> HealingAction" where
  "default_action aid service ns =
     \<lparr>action_id = aid, action_type = RESTART_POD, target = ns @ ''/'' @ service,
      parameters = [(''replicas'', PInt 1), (''strategy'', PStr ''rolling'')],
      reasoning = ''Default recovery action - restart pods with rolling update'',
      risk_level = ''low'', reversible = True\<rparr>"

definition generate_plan ::
  "(nat \<Rightarrow> string) \<Rightarrow> string \<Rightarrow> string \<Rightarrow> string \<Rightarrow> string \<Rightarrow> string \<Rightarrow> string list \<Rightarrow> HealingPlan" where
  "generate_plan ids iid service ns obs ori recs =
     (let action_types = select_actions obs recs;
          acts = build_actions ids 1 service ns action_types;
          acts = (if acts = [] then [default_action (ids 1) service ns] else acts);
          conf = calculate_confidence acts obs
      in \<lparr>plan_id = ids 0, pl_incident_id = iid, pl_observation = obs, pl_orientation = ori,
          pl_decision = ''Execute '' @ digits (length acts) @ '' healing actions for '' @ service,
          actions = acts, estimated_duration_seconds = int (length acts) * 30,
          pl_confidence = conf, risk_assessment = assess_plan_risk acts\<rparr>)"

text \<open>
  The action selection as the specification words it: the first table entry whose key, or
  its key with spaces for underscores, occurs in the lowercased observation gives its first
  two actions; each of the first two hints gives at most one action by its first keyword;
  of the candidates the first of every action type is kept, and of those the first three.
\<close>

definition spec_table_candidates :: "string \<Rightarrow> (ActionType \<times> string) list" where
  "spec_table_candidates obs =
     (case List.find (\<lambda>(key, acts). contains (lower obs) key
                          \<or> contains (lower obs) (replace CHR ''_'' CHR '' '' key))
             CAUSE_ACTION_MAP of
        None \<Rightarrow> []
      | Some (key, acts) \<Rightarrow> take 2 acts)"

definition spec_hint :: "string \<Rightarrow> (ActionType \<times> string) option" where
  "spec_hint h =
     (if contains (lower h) ''restart'' then Some (RESTART_POD, h)
      else if contains (lower h) ''scale'' then Some (SCALE_UP, h)
      else if contains (lower h) ''rollback'' then Some (ROLLBACK, h)
      else if contains (lower h) ''circuit'' then Some (CIRCUIT_BREAKER, h)
      else None)"

primrec keep_first :: "(ActionType \<times> string) list \<Rightarrow> (ActionType \<times> string) list" where
  "keep_first [] = []"
| "keep_first (x # xs) = x # filter (\<lambda>y. fst y \<noteq> fst x) (keep_first xs)"

definition spec_select_actions :: "string \<Rightarrow> string list \<Rightarrow> (ActionType \<times> string) list" where
  "spec_select_actions obs hints =
     take 3 (keep_first (spec_table_candidates obs @ List.map_filter spec_hint (take 2 hints)))"


section \<open>OODA Engine\<close>

text \<open>
  The engine's dicts \<open>_healings\<close>, \<open>_states\<close> and \<open>_cooldowns\<close> and its list \<open>_history\<close>.
  The lock guards one dict assignment at a time and is not modelled; every operation
  below runs as one step.
\<close>

record Engine =
  healings :: "(string \<times> HealingResult) list"
  states :: "(string \<times> OODAState) list"
  cooldowns :: "(string \<times> datetime) list"
  history :: "HealingResult list"

definition init_engine :: Engine where
  "init_engine = \<lparr>healings = [], states = [], cooldowns = [], history = []\<rparr>"

definition register_healing :: "Engine \<Rightarrow> HealingResult \<Rightarrow> Engine" where
  "register_healing e result =
     e\<lparr>healings := dict_set (healings e) (healing_id result) result,
       states := dict_set (states e) (healing_id result)
                   \<lparr>os_healing_id = healing_id result, phase = ''pending'',
                    observation = None, orientation = None, decision = None\<rparr>\<rparr>"

definition get_healing :: "Engine \<Rightarrow> string \<Rightarrow> HealingResult option" where
  "get_healing e hid = dict_get (healings e) hid"

definition get_ooda_state :: "Engine \<Rightarrow> string \<Rightarrow> OODAState option" where
  "get_ooda_state e hid = dict_get (states e) hid"

definition is_healing :: "Engine \<Rightarrow> string \<Rightarrow> bool" where
  "is_healing e iid =
     list_ex (\<lambda>h. hr_incident_id h = iid \<and> hr_status h \<notin> {COMPLETED, FAILED, CANCELLED})
       (dict_values (healings e))"

definition is_in_cooldown :: "Engine \<Rightarrow> string \<Rightarrow> datetime \<Rightarrow> bool" where
  "is_in_cooldown e service now =
     (case dict_get (cooldowns e) service of
        None \<Rightarrow> False
      | Some cooldown_until \<Rightarrow> now < cooldown_until)"

definition get_active_count :: "Engine \<Rightarrow> int" where
  "get_active_count e =
     int (length (filter (\<lambda>h. hr_status h \<notin> {COMPLETED, FAILED, CANCELLED})
                    (dict_values (healings e))))"

definition get_total_count :: "Engine \<Rightarrow> int" where
  "get_total_count e = int (length (healings e)) + int (length (history e))"

definition get_success_rate :: "Engine \<Rightarrow> rat" where
  "get_success_rate e =
     (let completed = filter (\<lambda>h. hr_status h = COMPLETED) (history e);
          total = length (history e)
      in if total > 0 then of_nat (length completed) / of_nat total else 0)"

text \<open>A duration in seconds, from two times in microseconds.\<close>

fun duration_of :: "HealingResult \<Rightarrow> rat list" where
  "duration_of h =
     (case (completed_at h, started_at h) of
        (Some c, Some s) \<Rightarrow> [of_int (c - s) / 1000000]
      | _ \<Rightarrow> [])"

definition get_average_duration :: "Engine \<Rightarrow> rat" where
  "get_average_duration e =
     (let durations = concat (map duration_of (history e))
      in if durations \<noteq> [] then sum_list durations / of_nat (length durations) else 0)"

text \<open>
  Assignments to the fields of the objects \<open>result\<close> and \<open>state\<close>, which live in the dicts
  under the healing's id.
\<close>

definition set_result :: "Engine \<Rightarrow> string \<Rightarrow> (HealingResult \<Rightarrow> HealingResult) \<Rightarrow> Engine" where
  "set_result e hid f = e\<lparr>healings := dict_upd (healings e) hid f\<rparr>"

definition set_state :: "Engine \<Rightarrow> string \<Rightarrow> (OODAState \<Rightarrow> OODAState) \<Rightarrow> Engine" where
  "set_state e hid f = e\<lparr>states := dict_upd (states e) hid f\<rparr>"

subsection \<open>Phases\<close>

definition observe :: "HealingRequest \<Rightarrow> string" where
  "observe request =
     join '' | ''
       ([''Incident '' @ rq_incident_id request @ '' affecting '' @ rq_target_service request,
         ''Severity: '' @ rq_severity request]
        @ (if truthy (rq_root_cause request)
           then [''Suspected root cause: '' @ the (rq_root_cause request)] else [])
        @ (if recommended_actions request \<noteq> []
           then [''Recommended actions: '' @ join '', '' (recommended_actions request)] else []))"

definition orient :: "HealingRequest \<Rightarrow> string \<Rightarrow> string" where
  "orient request obs =
     analyze_incident (rq_root_cause request) (rq_severity request) (recommended_actions request)"

definition decide :: "(nat \<Rightarrow> string) \<Rightarrow> HealingRequest \<Rightarrow> string \<Rightarrow> string \<Rightarrow> HealingPlan" where
  "decide ids request obs ori =
     generate_plan ids (rq_incident_id request) (rq_target_service request)
       (rq_target_namespace request) obs ori (recommended_actions request)"

text \<open>
  The answer of the Kubernetes executor to one POST: a status code, or no answer (the
  exception that \<open>_execute_action\<close> catches and turns into \<open>False\<close>).
\<close>

datatype Response = StatusCode nat | TransportError

definition execute_action :: "(HealingAction \<Rightarrow> Response) \<Rightarrow> HealingAction \<Rightarrow> bool" where
  "execute_action backend action =
     (case backend action of
        StatusCode c \<Rightarrow> c \<in> {200, 201, 202}
      | TransportError \<Rightarrow> False)"

text \<open>
  \<open>_act\<close>: since \<open>_execute_action\<close> never raises, the handler inside the loop, which would
  count the action as executed too, is never entered.
\<close>

fun act_loop :: "(HealingAction \<Rightarrow> Response) \<Rightarrow> HealingResult \<Rightarrow> HealingAction list \<Rightarrow> HealingResult" where
  "act_loop backend result [] = result"
| "act_loop backend result (action # rest) =
     (let success = execute_action backend action;
          result = result\<lparr>actions_executed := actions_executed result + 1\<rparr>;
          result = (if success then result\<lparr>actions_successful := actions_successful result + 1\<rparr>
                    else result)
      in act_loop backend result rest)"

definition act :: "(HealingAction \<Rightarrow> Response) \<Rightarrow> Engine \<Rightarrow> string \<Rightarrow> HealingPlan \<Rightarrow> Engine" where
  "act backend e hid p = set_result e hid (\<lambda>result. act_loop backend result (actions p))"

definition validate :: "string \<Rightarrow> bool" where
  "validate service = True"

subsection \<open>Pipelines\<close>

text \<open>
  What a request or a background task reads from outside the engine: the clock, the
  \<open>uuid4\<close> values it draws and the executor's answers.
\<close>

record Env =
  clock :: datetime
  uuid :: "nat \<Rightarrow> string"
  backend :: "HealingAction \<Rightarrow> Response"

text \<open>
  The phases are total functions of the request. The one statement of the four pipelines
  that can raise is the assignment of the cooldown in \<open>run_ooda_loop\<close>, whose sum can
  leave the range of the datetimes; its \<open>except\<close> handler then sets \<open>failed\<close>, the error
  message and the completion time, and no cooldown is set. The handlers of the other three
  pipelines have no run that enters them.
\<close>

definition run_ooda_loop :: "AgentSettings \<Rightarrow> Env \<Rightarrow> Engine \<Rightarrow> string \<Rightarrow> HealingRequest \<Rightarrow> Engine" where
  "run_ooda_loop settings env e hid request =
     (case (dict_get (healings e) hid, dict_get (states e) hid) of
        (Some result, Some state) \<Rightarrow>
          (let e = set_state e hid (\<lambda>s. s\<lparr>phase := ''observe''\<rparr>);
               e = set_result e hid (\<lambda>r. r\<lparr>hr_status := OBSERVING\<rparr>);
               obs = observe request;
               e = set_state e hid (\<lambda>s. s\<lparr>observation := Some obs\<rparr>);
               e = set_state e hid (\<lambda>s. s\<lparr>phase := ''orient''\<rparr>);
               e = set_result e hid (\<lambda>r. r\<lparr>hr_status := ORIENTING\<rparr>);
               ori = orient request obs;
               e = set_state e hid (\<lambda>s. s\<lparr>orientation := Some ori\<rparr>);
               e = set_state e hid (\<lambda>s. s\<lparr>phase := ''decide''\<rparr>);
               e = set_result e hid (\<lambda>r. r\<lparr>hr_status := DECIDING\<rparr>);
               p = decide (uuid env) request obs ori;
               e = set_result e hid (\<lambda>r. r\<lparr>plan := Some p\<rparr>);
               e = set_state e hid (\<lambda>s. s\<lparr>decision := Some (pl_decision p)\<rparr>);
               e = set_state e hid (\<lambda>s. s\<lparr>phase := ''act''\<rparr>);
               e = set_result e hid (\<lambda>r. r\<lparr>hr_status := ACTING\<rparr>);
               e = act (backend env) e hid p;
               e = set_state e hid (\<lambda>s. s\<lparr>phase := ''validate''\<rparr>);
               e = set_result e hid (\<lambda>r. r\<lparr>hr_status := VALIDATING\<rparr>);
               success = validate (rq_target_service request);
               e = set_result e hid
                     (\<lambda>r. r\<lparr>hr_status := (if success then COMPLETED else FAILED),
                             completed_at := Some (clock env),
                             result_message := Some (if success then ''Healing completed successfully''
                                                     else ''Healing validation failed'')\<rparr>)
           in (case plus_minutes (clock env) (cooldown_minutes settings) of
                 Inr cooldown_until \<Rightarrow>
                   e\<lparr>cooldowns := dict_set (cooldowns e) (rq_target_service request)
                                        cooldown_until\<rparr>
               | Inl (OverflowError message) \<Rightarrow>
                   set_result e hid
                     (\<lambda>r. r\<lparr>hr_status := FAILED, error_message := Some message,
                             completed_at := Some (clock env)\<rparr>)))
      | _ \<Rightarrow> e)"

definition generate_plan_only :: "Env \<Rightarrow> Engine \<Rightarrow> string \<Rightarrow> HealingRequest \<Rightarrow> Engine" where
  "generate_plan_only env e hid request =
     (case (dict_get (healings e) hid, dict_get (states e) hid) of
        (Some result, Some state) \<Rightarrow>
          (let e = set_state e hid (\<lambda>s. s\<lparr>phase := ''observe''\<rparr>);
               obs = observe request;
               e = set_state e hid (\<lambda>s. s\<lparr>observation := Some obs\<rparr>);
               e = set_state e hid (\<lambda>s. s\<lparr>phase := ''orient''\<rparr>);
               ori = orient request obs;
               e = set_state e hid (\<lambda>s. s\<lparr>orientation := Some ori\<rparr>);
               e = set_state e hid (\<lambda>s. s\<lparr>phase := ''decide''\<rparr>);
               p = decide (uuid env) request obs ori;
               e = set_result e hid (\<lambda>r. r\<lparr>plan := Some p\<rparr>);
               e = set_state e hid (\<lambda>s. s\<lparr>decision := Some (pl_decision p)\<rparr>)
           in set_result e hid
                (\<lambda>r. r\<lparr>hr_status := DECIDING,
                        result_message := Some ''Plan generated, awaiting approval''\<rparr>))
      | _ \<Rightarrow> e)"

definition analyze_only :: "Env \<Rightarrow> Engine \<Rightarrow> string \<Rightarrow> HealingRequest \<Rightarrow> Engine" where
  "analyze_only env e hid request =
     (case (dict_get (healings e) hid, dict_get (states e) hid) of
        (Some result, Some state) \<Rightarrow>
          (let e = set_state e hid (\<lambda>s. s\<lparr>phase := ''observe''\<rparr>);
               obs = observe request;
               e = set_state e hid (\<lambda>s. s\<lparr>observation := Some obs\<rparr>);
               e = set_state e hid (\<lambda>s. s\<lparr>phase := ''orient''\<rparr>);
               ori = orient request obs;
               e = set_state e hid (\<lambda>s. s\<lparr>orientation := Some ori\<rparr>)
           in set_result e hid
                (\<lambda>r. r\<lparr>hr_status := COMPLETED,
                        result_message := Some ''Analysis complete. Manual action required.'',
                        completed_at := Some (clock env)\<rparr>))
      | _ \<Rightarrow> e)"

definition execute_plan :: "Env \<Rightarrow> Engine \<Rightarrow> string \<Rightarrow> Engine" where
  "execute_plan env e hid =
     (case dict_get (healings e) hid of
        None \<Rightarrow> e
      | Some result \<Rightarrow>
          (case plan result of
             None \<Rightarrow> e
           | Some p \<Rightarrow>
               (let e = set_result e hid (\<lambda>r. r\<lparr>hr_status := ACTING\<rparr>);
                    e = act (backend env) e hid p;
                    e = set_result e hid (\<lambda>r. r\<lparr>hr_status := VALIDATING\<rparr>)
                in set_result e hid
                     (\<lambda>r. r\<lparr>hr_status := COMPLETED,
                             completed_at := Some (clock env),
                             result_message := Some ''Plan executed successfully''\<rparr>))))"

definition cancel_healing :: "Env \<Rightarrow> Engine \<Rightarrow> string \<Rightarrow> HealingResult option \<times> Engine" where
  "cancel_healing env e hid =
     (let e' = set_result e hid (\<lambda>r. r\<lparr>hr_status := CANCELLED, completed_at := Some (clock env)\<rparr>)
      in (dict_get (healings e') hid, e'))"


section \<open>Agent routes\<close>

datatype HTTPException = HTTPException int string

text \<open>A background task that a route has added and that has not run yet.\<close>

datatype BgTask =
  RunOodaLoop string HealingRequest
| GeneratePlanOnly string HealingRequest
| AnalyzeOnly string HealingRequest
| ExecutePlan string

text \<open>
  \<open>trigger_healing\<close>: the healing id is \<open>uuid env 0\<close>. The route sets the status of the
  result after registering it; the object is the registered one.
\<close>

definition trigger_healing ::
  "AgentSettings \<Rightarrow> Env \<Rightarrow> Engine \<Rightarrow> HealingRequest
     \<Rightarrow> HTTPException + (HealingResult \<times> Engine \<times> BgTask)" where
  "trigger_healing settings env e request_data =
     (if is_healing e (rq_incident_id request_data)
      then Inl (HTTPException 409
                 (''Healing already in progress for incident '' @ rq_incident_id request_data))
      else if get_active_count e \<ge> max_concurrent_healings settings
      then Inl (HTTPException 429
                 (''Maximum concurrent healings ('' @ str_int (max_concurrent_healings settings)
                  @ '') reached''))
      else if is_in_cooldown e (rq_target_service request_data) (clock env) \<and> \<not> force request_data
      then Inl (HTTPException 429
                 (''Service '' @ rq_target_service request_data @ '' is in cooldown period''))
      else
        (let hid = uuid env 0;
             result = new_healing_result hid (rq_incident_id request_data) PENDING (clock env);
             e = register_healing e result
         in if healing_mode settings = AUTO
            then Inr (result\<lparr>hr_status := OBSERVING\<rparr>,
                      set_result e hid (\<lambda>r. r\<lparr>hr_status := OBSERVING\<rparr>),
                      RunOodaLoop hid request_data)
            else if healing_mode settings = SEMI_AUTO
            then Inr (result\<lparr>hr_status := DECIDING\<rparr>,
                      set_result e hid (\<lambda>r. r\<lparr>hr_status := DECIDING\<rparr>),
                      GeneratePlanOnly hid request_data)
            else Inr (result\<lparr>hr_status := ORIENTING\<rparr>,
                      set_result e hid (\<lambda>r. r\<lparr>hr_status := ORIENTING\<rparr>),
                      AnalyzeOnly hid request_data)))"

definition approve_healing_plan :: "Engine \<Rightarrow> string \<Rightarrow> HTTPException + BgTask" where
  "approve_healing_plan e hid =
     (case get_healing e hid of
        None \<Rightarrow> Inl (HTTPException 404 ''Healing not found'')
      | Some result \<Rightarrow>
          (if hr_status result \<noteq> DECIDING
           then Inl (HTTPException 400
                      (''Cannot approve healing in status '' @ status_value (hr_status result)))
           else Inr (ExecutePlan hid)))"

definition cancel_route :: "Env \<Rightarrow> Engine \<Rightarrow> string \<Rightarrow> HTTPException + Engine" where
  "cancel_route env e hid =
     (case cancel_healing env e hid of
        (None, e') \<Rightarrow> Inl (HTTPException 404 ''Healing not found'')
      | (Some result, e') \<Rightarrow> Inr e')"

subsection \<open>The agent as a transition system\<close>

text \<open>
  The agent's state is the engine and the background tasks not yet run. An event is a
  request to one of the routes or the run of one pending task; a rejected request and a
  run of a task that is not pending leave the state as it is.
\<close>

record Agent =
  engine :: Engine
  tasks :: "BgTask list"

datatype Event =
  Heal HealingRequest Env
| Approve string
| Cancel string Env
| RunTask nat Env

fun run_task :: "AgentSettings \<Rightarrow> Env \<Rightarrow> Engine \<Rightarrow> BgTask \<Rightarrow> Engine" where
  "run_task settings env e (RunOodaLoop hid request) = run_ooda_loop settings env e hid request"
| "run_task settings env e (GeneratePlanOnly hid request) = generate_plan_only env e hid request"
| "run_task settings env e (AnalyzeOnly hid request) = analyze_only env e hid request"
| "run_task settings env e (ExecutePlan hid) = execute_plan env e hid"

fun step :: "AgentSettings \<Rightarrow> Agent \<Rightarrow> Event \<Rightarrow> Agent" where
  "step settings a (Heal request env) =
     (case trigger_healing settings env (engine a) request of
        Inl err \<Rightarrow> a
      | Inr (result, e, task) \<Rightarrow> \<lparr>engine = e, tasks = tasks a @ [task]\<rparr>)"
| "step settings a (Approve hid) =
     (case approve_healing_plan (engine a) hid of
        Inl err \<Rightarrow> a
      | Inr task \<Rightarrow> a\<lparr>tasks := tasks a @ [task]\<rparr>)"
| "step settings a (Cancel hid env) = a\<lparr>engine := snd (cancel_healing env (engine a) hid)\<rparr>"
| "step settings a (RunTask i env) =
     (if i < length (tasks a)
      then \<lparr>engine = run_task settings env (engine a) (tasks a ! i),
            tasks = take i (tasks a) @ drop (Suc i) (tasks a)\<rparr>
      else a)"

fun run :: "AgentSettings \<Rightarrow> Agent \<Rightarrow> Event list \<Rightarrow> Agent" where
  "run settings a [] = a"
| "run settings a (ev # evs) = run settings (step settings a ev) evs"

definition init_agent :: Agent where
  "init_agent = \<lparr>engine = init_engine, tasks = []\<rparr>"

text \<open>The ids of the healings that a run registers, in the order of their registration.\<close>

fun registered_ids :: "AgentSettings \<Rightarrow> Agent \<Rightarrow> Event list \<Rightarrow> string list" where
  "registered_ids settings a [] = []"
| "registered_ids settings a (ev # evs) =
     (case ev of
        Heal request env \<Rightarrow>
          (case trigger_healing settings env (engine a) request of
             Inl err \<Rightarrow> []
           | Inr x \<Rightarrow> [uuid env 0])
      | _ \<Rightarrow> [])
     @ registered_ids settings (step settings a ev) evs"

text \<open>Concrete inputs for the agent.\<close>

definition example_ids :: "string \<Rightarrow> nat \<Rightarrow> string" where
  "example_ids prefix n = prefix @ digits n"

definition known_request :: HealingRequest where
  "known_request =
     \<lparr>rq_incident_id = ''inc-1'', rq_target_service = ''checkout'',
      rq_target_namespace = ''default'', rq_severity = ''high'',
      rq_root_cause = Some ''error_rate_spike'', recommended_actions = [], force = False\<rparr>"

definition auto_settings :: AgentSettings where
  "auto_settings = \<lparr>healing_mode = AUTO, max_concurrent_healings = 3, cooldown_minutes = 10\<rparr>"

definition semi_settings :: AgentSettings where
  "semi_settings = \<lparr>healing_mode = SEMI_AUTO, max_concurrent_healings = 3, cooldown_minutes = 10\<rparr>"

definition manual_settings :: AgentSettings where
  "manual_settings = \<lparr>healing_mode = MANUAL, max_concurrent_healings = 3, cooldown_minutes = 10\<rparr>"

definition single_settings :: AgentSettings where
  "single_settings = \<lparr>healing_mode = AUTO, max_concurrent_healings = 1, cooldown_minutes = 10\<rparr>"

text \<open>An environment at a time in minutes, with ids of a prefix and one answer to every POST.\<close>

definition env_at :: "int \<Rightarrow> string \<Rightarrow> Response \<Rightarrow> Env" where
  "env_at m prefix answer =
     \<lparr>clock = timedelta_minutes m, uuid = example_ids prefix, backend = (\<lambda>a. answer)\<rparr>"

definition other_request :: HealingRequest where
  "other_request = known_request\<lparr>rq_incident_id := ''inc-2''\<rparr>"

definition forced_request :: HealingRequest where
  "forced_request = other_request\<lparr>force := True\<rparr>"

text \<open>
  Runs of the agent: a healing of \<open>known_request\<close> triggered and left pending; run to its
  end in auto mode; planned, approved and executed in semi-auto mode with an executor that
  answers 500 to every action; and analysed in manual mode.
\<close>

definition pending_agent :: Agent where
  "pending_agent = run auto_settings init_agent [Heal known_request (env_at 0 ''h-'' (StatusCode 200))]"

definition auto_agent :: Agent where
  "auto_agent =
     run auto_settings init_agent
       [Heal known_request (env_at 0 ''h-'' (StatusCode 200)),
        RunTask 0 (env_at 1 ''p-'' (StatusCode 200))]"

definition planned_agent :: Agent where
  "planned_agent =
     run semi_settings init_agent
       [Heal known_request (env_at 0 ''h-'' (StatusCode 500)),
        RunTask 0 (env_at 1 ''p-'' (StatusCode 500)),
        Approve ''h-0'']"

definition semi_agent :: Agent where
  "semi_agent = run semi_settings planned_agent [RunTask 0 (env_at 2 ''q-'' (StatusCode 500))]"

definition planned_result :: HealingResult where
  "planned_result = the (get_healing (engine planned_agent) ''h-0'')"

definition planned_plan :: HealingPlan where
  "planned_plan = the (plan planned_result)"

definition manual_events :: "Event list" where
  "manual_events =
     [Heal known_request (env_at 0 ''h-'' (StatusCode 200)),
      Approve ''h-0'',
      RunTask 0 (env_at 1 ''p-'' (StatusCode 200)),
      Approve ''h-0'']"

definition two_heals :: "Event list" where
  "two_heals =
     [Heal known_request (env_at 0 ''h-'' (StatusCode 200)),
      Heal other_request (env_at 0 ''g-'' (StatusCode 200)),
      RunTask 0 (env_at 1 ''p-'' (StatusCode 200)),
      RunTask 0 (env_at 2 ''q-'' (StatusCode 200))]"

text \<open>
  What holds of every healing and of every pending task in manual mode: the healing is
  being analysed, completed or cancelled, has no plan and has executed nothing; the task
  is an analysis.
\<close>

definition manual_ok :: "HealingResult \<Rightarrow> bool" where
  "manual_ok h =
     (hr_status h \<in> {ORIENTING, COMPLETED, CANCELLED} \<and> plan h = None
      \<and> actions_executed h = 0 \<and> actions_successful h = 0)"

fun is_analyze :: "BgTask \<Rightarrow> bool" where
  "is_analyze (AnalyzeOnly hid request) = True"
| "is_analyze task = False"

text \<open>
  A pending task of manual mode: an analysis of a healing that the engine holds, with its
  OODA state.
\<close>

definition task_registered :: "Engine \<Rightarrow> BgTask \<Rightarrow> bool" where
  "task_registered e t =
     (case t of
        AnalyzeOnly hid request \<Rightarrow> get_healing e hid \<noteq> None \<and> get_ooda_state e hid \<noteq> None
      | _ \<Rightarrow> False)"

text \<open>The invariant of the agent in manual mode.\<close>

definition manual_inv :: "Agent \<Rightarrow> bool" where
  "manual_inv a =
     (list_all manual_ok (dict_values (healings (engine a)))
      \<and> list_all (task_registered (engine a)) (tasks a))"

text \<open>The tasks that run the whole loop, the only ones that set a cooldown.\<close>

fun is_ooda_loop :: "BgTask \<Rightarrow> bool" where
  "is_ooda_loop (RunOodaLoop hid request) = True"
| "is_ooda_loop task = False"


section \<open>Facts about dictionaries\<close>

lemma dict_get_dict_set:
  "dict_get (dict_set d k v) k' = (if k' = k then Some v else dict_get d k')"
  by (induction d) auto

lemma dict_set_twice: "dict_set (dict_set d k v) k v' = dict_set d k v'"
  by (induction d) auto

lemma dict_set_absent: "k \<notin> set (map fst d) \<Longrightarrow> dict_set d k v = d @ [(k, v)]"
  by (induction d) auto

lemma keys_dict_set_present: "k \<in> set (map fst d) \<Longrightarrow> map fst (dict_set d k v) = map fst d"
  by (induction d) force+

lemma dict_get_dom: "dict_get d k = Some v \<Longrightarrow> k \<in> set (map fst d)"
  by (induction d) (auto split: if_splits)

lemma dict_get_distinct: "distinct (map fst d) \<Longrightarrow> (k, v) \<in> set d \<Longrightarrow> dict_get d k = Some v"
  by (induction d) (auto simp: rev_image_eqI)

lemma dict_set_same_image:
  "dict_get d k = Some v \<Longrightarrow> f v' = f v
     \<Longrightarrow> map f (dict_values (dict_set d k v')) = map f (dict_values d)"
  by (induction d) (auto simp: dict_values_def split: if_splits)

lemma filter_dict_set_le:
  "length (filter P (dict_values (dict_set d k v)))
     \<le> length (filter P (dict_values d)) + (if P v then 1 else 0)"
  by (induction d) (auto simp: dict_values_def)

lemma length_filter_mono:
  "(\<And>x. P x \<Longrightarrow> Q x) \<Longrightarrow> length (filter P xs) \<le> length (filter Q xs)"
  by (induction xs) auto


section \<open>Correlation of signals into incidents\<close>

lemma minus_minutes_in_range:
  "cutoff_in_range now w \<Longrightarrow> minus_minutes now w = Inr (now - timedelta_minutes w)"
  by (simp add: cutoff_in_range_def minus_minutes_def timedelta_def datetime_add_def Let_def)

lemma minus_minutes_overflow:
  "\<not> cutoff_in_range now w \<Longrightarrow> \<exists>err. minus_minutes now w = Inl err"
  by (auto simp: cutoff_in_range_def minus_minutes_def timedelta_def datetime_add_def Let_def)

lemma find_related_in_range:
  "cutoff_in_range now w \<Longrightarrow>
     find_related_incident store s n w now
       = Inr (List.find (is_related s n (now - timedelta_minutes w)) (dict_values store))"
  by (simp add: find_related_incident_def minus_minutes_in_range)

lemma find_related_overflow:
  "\<not> cutoff_in_range now w \<Longrightarrow> \<exists>err. find_related_incident store s n w now = Inl err"
  using minus_minutes_overflow[of now w] by (auto simp: find_related_incident_def)

lemma find_is_related_Some:
  "List.find (is_related s n c) (dict_values store) = Some ex \<Longrightarrow>
     ex \<in> set (dict_values store) \<and> is_related s n c ex"
  by (auto simp: find_Some_iff)

lemma correlates_find:
  "correlates store s n w now \<longleftrightarrow>
     List.find (is_related s n (now - timedelta_minutes w)) (dict_values store) \<noteq> None"
  by (auto simp: correlates_def find_None_iff is_related_def)

lemma wf_store_get:
  "wf_store store \<Longrightarrow> ex \<in> set (dict_values store) \<Longrightarrow> dict_get store (incident_id ex) = Some ex"
  by (auto simp: wf_store_def dict_values_def list_all_iff intro!: dict_get_distinct)

lemma open_for_set:
  "i \<in> set (open_for store s n) \<longleftrightarrow>
     i \<in> set (dict_values store) \<and> status i \<notin> {INC_RESOLVED, INC_FAILED}
     \<and> target_service i = s \<and> target_namespace i = n"
  by (auto simp: open_for_def is_open_def)

lemma ingest_overflow:
  assumes "\<not> cutoff_in_range now (incident_correlation_window_minutes settings)"
  shows "\<exists>err. ingest settings store (now, new_id, sg) = Inl err"
proof (cases sg)
  case (Anomaly e)
  from find_related_overflow[OF assms, of store "ae_target_service e" "ae_target_namespace e"]
  show ?thesis unfolding Anomaly by (auto simp: receive_anomaly_event_def)
next
  case (LogAnalysis e)
  from find_related_overflow[OF assms, of store "service_name e" "namespace e"]
  show ?thesis unfolding LogAnalysis by (auto simp: receive_log_analysis_event_def)
qed

lemma ingest_created:
  assumes "cutoff_in_range now (incident_correlation_window_minutes settings)"
    and "\<not> correlates store (signal_service sg) (signal_namespace sg)
           (incident_correlation_window_minutes settings) now"
  shows "\<exists>inc. ingest settings store (now, new_id, sg)
                 = Inr ((Created, new_id), dict_set store new_id inc)
           \<and> incident_id inc = new_id \<and> is_open inc \<and> target_service inc = signal_service sg
           \<and> target_namespace inc = signal_namespace sg \<and> created_at inc = now
           \<and> event_ids inc = [signal_event_id sg]"
  using assms
  by (cases sg)
     (auto simp: correlates_find find_related_in_range receive_anomaly_event_def
                 receive_log_analysis_event_def Let_def create_incident_def is_open_def)

lemma ingest_correlated:
  assumes "cutoff_in_range now (incident_correlation_window_minutes settings)"
    and "wf_store store"
    and "List.find (is_related (signal_service sg) (signal_namespace sg)
           (now - timedelta_minutes (incident_correlation_window_minutes settings)))
           (dict_values store) = Some ex"
  shows "\<exists>ex'. ingest settings store (now, new_id, sg)
                 = Inr ((Correlated, incident_id ex), dict_set store (incident_id ex) ex')
           \<and> event_ids ex' = event_ids ex @ [signal_event_id sg]
           \<and> related_key ex' = related_key ex \<and> incident_id ex' = incident_id ex"
proof -
  from assms(2,3) have g: "dict_get store (incident_id ex) = Some ex"
    using find_is_related_Some wf_store_get by blast
  show ?thesis using assms(1,3) g
    by (cases sg)
       (auto simp: find_related_in_range receive_anomaly_event_def receive_log_analysis_event_def
                   Let_def add_event_to_incident_def update_incident_analysis_def
                   dict_get_dict_set dict_set_twice related_key_def)
qed

lemma wf_store_dict_set:
  "wf_store store \<Longrightarrow> incident_id v = k \<Longrightarrow> wf_store (dict_set store k v)"
proof (induction store)
  case Nil
  then show ?case by (simp add: wf_store_def)
next
  case (Cons x store)
  obtain k' v' where x: "x = (k', v')" by (cases x)
  from Cons.prems(1) have wf: "wf_store store" and nk: "k' \<notin> set (map fst store)"
    and id: "incident_id v' = k'"
    unfolding x by (simp_all add: wf_store_def)
  show ?case
  proof (cases "k' = k")
    case True
    with Cons.prems x show ?thesis by (simp add: wf_store_def)
  next
    case False
    have "x = k \<or> x \<in> set (map fst store)" if "x \<in> set (map fst (dict_set store k v))" for x
      using that by (induction store) (force split: if_splits)+
    with nk False have "k' \<notin> set (map fst (dict_set store k v))" by blast
    moreover from Cons.IH[OF wf Cons.prems(2)] have "wf_store (dict_set store k v)" .
    ultimately show ?thesis using False id unfolding x by (simp add: wf_store_def)
  qed
qed

lemma values_dict_set:
  "x \<in> set (dict_values (dict_set d k v)) \<Longrightarrow> x = v \<or> x \<in> set (dict_values d)"
  by (induction d) (force simp: dict_values_def split: if_splits)+

lemma wf_store_ids: "wf_store store \<Longrightarrow> map incident_id (dict_values store) = map fst store"
  by (induction store) (auto simp: wf_store_def dict_values_def)

lemma related_key_filter:
  "map related_key xs = map related_key ys
     \<Longrightarrow> length (filter (\<lambda>i. is_open i \<and> target_service i = s \<and> target_namespace i = n) xs)
         = length (filter (\<lambda>i. is_open i \<and> target_service i = s \<and> target_namespace i = n) ys)"
proof (induction xs arbitrary: ys)
  case Nil
  then show ?case by simp
next
  case (Cons x xs)
  then obtain y ys' where ys: "ys = y # ys'" "related_key x = related_key y"
      "map related_key xs = map related_key ys'"
    by (cases ys) auto
  with Cons.IH[OF ys(3)] show ?case by (simp add: related_key_def is_open_def)
qed

text \<open>
  The state of the store after one request: unchanged, or an incident replaced by one of
  the same id, status, target and creation time, or a new incident of the signal's target,
  created now, when none of the target is open within the window.
\<close>

lemma store_after_cases:
  assumes wf: "wf_store store"
  shows "store_after store (ingest settings store (now, new_id, sg)) = store
       \<or> (\<exists>ex ex'. ex \<in> set (dict_values store)
             \<and> store_after store (ingest settings store (now, new_id, sg))
                 = dict_set store (incident_id ex) ex'
             \<and> related_key ex' = related_key ex \<and> incident_id ex' = incident_id ex)
       \<or> (\<exists>inc. \<not> correlates store (signal_service sg) (signal_namespace sg)
                    (incident_correlation_window_minutes settings) now
             \<and> store_after store (ingest settings store (now, new_id, sg))
                 = dict_set store new_id inc
             \<and> incident_id inc = new_id \<and> target_service inc = signal_service sg
             \<and> target_namespace inc = signal_namespace sg \<and> created_at inc = now)"
proof (cases "cutoff_in_range now (incident_correlation_window_minutes settings)")
  case False
  from ingest_overflow[OF False, where store = store and new_id = new_id and sg = sg]
  show ?thesis by (auto simp: store_after_def)
next
  case True
  show ?thesis
  proof (cases "correlates store (signal_service sg) (signal_namespace sg)
                  (incident_correlation_window_minutes settings) now")
    case False
    from ingest_created[OF True False, where new_id = new_id]
    show ?thesis using False by (auto simp: store_after_def)
  next
    case c: True
    then obtain ex where ex: "List.find (is_related (signal_service sg) (signal_namespace sg)
           (now - timedelta_minutes (incident_correlation_window_minutes settings)))
           (dict_values store) = Some ex"
      unfolding correlates_find by blast
    from find_is_related_Some[OF ex] have "ex \<in> set (dict_values store)" by simp
    with ingest_correlated[OF True wf ex, where new_id = new_id]
    show ?thesis by (auto simp: store_after_def)
  qed
qed

lemma store_after_wf:
  assumes "wf_store store"
  shows "wf_store (store_after store (ingest settings store (now, new_id, sg)))"
  using store_after_cases[OF assms, of settings now new_id sg] assms
  by (auto intro: wf_store_dict_set)

lemma store_after_apart:
  assumes wf: "wf_store store"
    and inv: "\<forall>i \<in> set (dict_values store). \<forall>j \<in> set (dict_values store).
               incident_id i \<noteq> incident_id j \<and> is_open i \<and> is_open j
               \<and> target_service i = target_service j \<and> target_namespace i = target_namespace j
               \<longrightarrow> timedelta_minutes (incident_correlation_window_minutes settings)
                     < \<bar>created_at i - created_at j\<bar>"
    and i: "i \<in> set (dict_values (store_after store (ingest settings store (now, new_id, sg))))"
    and j: "j \<in> set (dict_values (store_after store (ingest settings store (now, new_id, sg))))"
    and ne: "incident_id i \<noteq> incident_id j"
    and op: "is_open i" "is_open j"
    and tg: "target_service i = target_service j" "target_namespace i = target_namespace j"
  shows "timedelta_minutes (incident_correlation_window_minutes settings)
           < \<bar>created_at i - created_at j\<bar>"
proof -
  let ?W = "timedelta_minutes (incident_correlation_window_minutes settings)"
  let ?store' = "store_after store (ingest settings store (now, new_id, sg))"
  from store_after_cases[OF wf, of settings now new_id sg]
  consider (same) "?store' = store"
    | (corr) ex ex' where "ex \<in> set (dict_values store)"
        "?store' = dict_set store (incident_id ex) ex'"
        "related_key ex' = related_key ex" "incident_id ex' = incident_id ex"
    | (new) inc where "\<not> correlates store (signal_service sg) (signal_namespace sg)
                    (incident_correlation_window_minutes settings) now"
        "?store' = dict_set store new_id inc" "incident_id inc = new_id"
        "target_service inc = signal_service sg" "target_namespace inc = signal_namespace sg"
        "created_at inc = now"
    by blast
  then show ?thesis
  proof cases
    case same
    with inv i j ne op tg show ?thesis by simp
  next
    case corr
    define old where "old x = (if x = ex' then ex else x)" for x
    have mem: "old x \<in> set (dict_values store)" if "x \<in> set (dict_values ?store')" for x
      using values_dict_set[of x store "incident_id ex" ex'] that corr(1,2)
      by (auto simp: old_def)
    have key: "related_key (old x) = related_key x" "incident_id (old x) = incident_id x" for x
      using corr(3,4) by (simp_all add: old_def)
    have fields: "is_open (old x) = is_open x" "target_service (old x) = target_service x"
      "target_namespace (old x) = target_namespace x" "created_at (old x) = created_at x" for x
      using key(1)[of x] by (simp_all add: related_key_def is_open_def)
    have "incident_id (old i) \<noteq> incident_id (old j) \<and> is_open (old i) \<and> is_open (old j)
          \<and> target_service (old i) = target_service (old j)
          \<and> target_namespace (old i) = target_namespace (old j)"
      using ne op tg by (simp add: key fields)
    with inv mem[OF i] mem[OF j]
    have "?W < \<bar>created_at (old i) - created_at (old j)\<bar>"
      by blast
    then show ?thesis by (simp add: fields)
  next
    case new
    have mem: "x = inc \<or> x \<in> set (dict_values store)" if "x \<in> set (dict_values ?store')" for x
      using values_dict_set[of x store new_id inc] that new(2) by auto
    have far: "?W < now - created_at x"
      if "x \<in> set (dict_values store)" "is_open x" "target_service x = signal_service sg"
         "target_namespace x = signal_namespace sg" for x
      using new(1) that unfolding correlates_def is_open_def by force
    from mem[OF i] mem[OF j] show ?thesis
    proof (elim disjE)
      assume "i = inc" "j = inc"
      with ne show ?thesis by simp
    next
      assume a: "i = inc" "j \<in> set (dict_values store)"
      from far[OF a(2) op(2)] tg a(1) new(4,5,6) show ?thesis by simp
    next
      assume a: "i \<in> set (dict_values store)" "j = inc"
      from far[OF a(1) op(1)] tg a(2) new(4,5,6) show ?thesis by simp
    next
      assume "i \<in> set (dict_values store)" "j \<in> set (dict_values store)"
      with inv ne op tg show ?thesis by simp
    qed
  qed
qed

lemma ingest_all_apart:
  assumes "wf_store store"
    and "\<forall>i \<in> set (dict_values store). \<forall>j \<in> set (dict_values store).
               incident_id i \<noteq> incident_id j \<and> is_open i \<and> is_open j
               \<and> target_service i = target_service j \<and> target_namespace i = target_namespace j
               \<longrightarrow> timedelta_minutes (incident_correlation_window_minutes settings)
                     < \<bar>created_at i - created_at j\<bar>"
  shows "wf_store (ingest_all settings store xs)
       \<and> (\<forall>i \<in> set (dict_values (ingest_all settings store xs)).
            \<forall>j \<in> set (dict_values (ingest_all settings store xs)).
               incident_id i \<noteq> incident_id j \<and> is_open i \<and> is_open j
               \<and> target_service i = target_service j \<and> target_namespace i = target_namespace j
               \<longrightarrow> timedelta_minutes (incident_correlation_window_minutes settings)
                     < \<bar>created_at i - created_at j\<bar>)"
  using assms
proof (induction xs arbitrary: store)
  case Nil
  then show ?case by simp
next
  case (Cons x xs)
  obtain now new_id sg where x: "x = (now, new_id, sg)" by (cases x)
  let ?store' = "store_after store (ingest settings store (now, new_id, sg))"
  have wf': "wf_store ?store'"
    using Cons.prems(1) by (rule store_after_wf)
  have inv': "\<forall>i \<in> set (dict_values ?store'). \<forall>j \<in> set (dict_values ?store').
               incident_id i \<noteq> incident_id j \<and> is_open i \<and> is_open j
               \<and> target_service i = target_service j \<and> target_namespace i = target_namespace j
               \<longrightarrow> timedelta_minutes (incident_correlation_window_minutes settings)
                     < \<bar>created_at i - created_at j\<bar>"
    using store_after_apart[OF Cons.prems(1) Cons.prems(2)] by blast
  from Cons.IH[OF wf' inv'] show ?case unfolding x by simp
qed

lemma at_most_one_in_window:
  assumes d: "distinct (map incident_id xs)"
    and ap: "\<forall>i \<in> set xs. \<forall>j \<in> set xs. incident_id i \<noteq> incident_id j
               \<longrightarrow> W < \<bar>created_at i - created_at j\<bar>"
  shows "length (filter (\<lambda>i. c \<le> created_at i \<and> created_at i \<le> c + W) xs) \<le> 1"
  using assms
proof (induction xs)
  case Nil
  then show ?case by simp
next
  case (Cons x xs)
  let ?Q = "\<lambda>i. c \<le> created_at i \<and> created_at i \<le> c + W"
  have ih: "length (filter ?Q xs) \<le> 1"
    using Cons by simp
  show ?case
  proof (cases "?Q x")
    case False
    then show ?thesis using ih by auto
  next
    case True
    have "filter ?Q xs = []"
    proof (rule ccontr)
      assume "filter ?Q xs \<noteq> []"
      then obtain y where y: "y \<in> set xs" "?Q y"
        by (metis (mono_tags, lifting) filter_empty_conv)
      from Cons.prems(1) y(1) have "incident_id x \<noteq> incident_id y" by auto
      with Cons.prems(2) y(1) have "W < \<bar>created_at x - created_at y\<bar>" by simp
      with True y(2) show False by linarith
    qed
    with True show ?thesis by simp
  qed
qed

text \<open>
  Claim C1, as stated, fails: two anomalies for \<open>checkout/default\<close>, the second 16 minutes
  after the first with the window at 15 minutes, leave two incidents of that target open,
  since the first incident is no longer within the window and nothing closes it.
\<close>

theorem ingest_two_open_incidents:
  "length (open_for (ingest_all example_settings [] two_signals) ''checkout'' ''default'') = 2"
  by code_simp

text \<open>
  Claim C1, amended. After any sequence of ingests from the empty store, in whatever order
  of their clock readings, the keys of the store are the ids of its incidents, and any two
  open incidents of one target that are not the same incident were created more than
  \<open>window_minutes\<close> apart; so of the open incidents of a target at most one was created in
  any interval of that length. An ingest whose cutoff is in range and whose target has no
  open incident created at or after the cutoff stores one new open incident, created now,
  behind all the others: the open incidents the target had, all older than the window,
  stay open beside it. An ingest whose target has such an incident correlates: it adds no
  incident and every target keeps the number of its open incidents. An ingest whose cutoff
  is out of range raises and leaves the store as it was.
\<close>

theorem open_incidents_window_apart:
  "wf_store (ingest_all settings [] xs)
   \<and> (\<forall>i \<in> set (open_for (ingest_all settings [] xs) service ns).
        \<forall>j \<in> set (open_for (ingest_all settings [] xs) service ns).
          incident_id i \<noteq> incident_id j \<longrightarrow>
            timedelta_minutes (incident_correlation_window_minutes settings)
              < \<bar>created_at i - created_at j\<bar>)
   \<and> length (filter (\<lambda>i. c \<le> created_at i
                         \<and> created_at i
                             \<le> c + timedelta_minutes (incident_correlation_window_minutes settings))
               (open_for (ingest_all settings [] xs) service ns)) \<le> 1
   \<and> (cutoff_in_range now (incident_correlation_window_minutes settings)
        \<and> \<not> correlates store (signal_service sg) (signal_namespace sg)
              (incident_correlation_window_minutes settings) now
        \<and> new_id \<notin> set (map fst store) \<longrightarrow>
        (\<exists>inc. ingest settings store (now, new_id, sg)
                  = Inr ((Created, new_id), store @ [(new_id, inc)])
           \<and> is_open inc \<and> created_at inc = now
           \<and> open_for (store @ [(new_id, inc)]) (signal_service sg) (signal_namespace sg)
               = open_for store (signal_service sg) (signal_namespace sg) @ [inc]))
   \<and> (cutoff_in_range now (incident_correlation_window_minutes settings)
        \<and> correlates store (signal_service sg) (signal_namespace sg)
             (incident_correlation_window_minutes settings) now
        \<and> wf_store store \<longrightarrow>
        (\<exists>iid store'. ingest settings store (now, new_id, sg) = Inr ((Correlated, iid), store')
           \<and> map fst store' = map fst store
           \<and> (\<forall>s n. length (open_for store' s n) = length (open_for store s n))))
   \<and> (\<not> cutoff_in_range now (incident_correlation_window_minutes settings) \<longrightarrow>
        (\<exists>err. ingest settings store (now, new_id, sg) = Inl err)
        \<and> ingest_all settings store [(now, new_id, sg)] = store)"
proof (intro conjI impI)
  let ?S = "ingest_all settings [] xs"
  let ?W = "timedelta_minutes (incident_correlation_window_minutes settings)"
  let ?w = "incident_correlation_window_minutes settings"
  have inv: "wf_store ?S
       \<and> (\<forall>i \<in> set (dict_values ?S). \<forall>j \<in> set (dict_values ?S).
               incident_id i \<noteq> incident_id j \<and> is_open i \<and> is_open j
               \<and> target_service i = target_service j \<and> target_namespace i = target_namespace j
               \<longrightarrow> ?W < \<bar>created_at i - created_at j\<bar>)"
    by (rule ingest_all_apart) (simp_all add: wf_store_def dict_values_def)
  then show wf: "wf_store ?S" by blast
  show ap: "\<forall>i \<in> set (open_for ?S service ns). \<forall>j \<in> set (open_for ?S service ns).
          incident_id i \<noteq> incident_id j \<longrightarrow> ?W < \<bar>created_at i - created_at j\<bar>"
  proof (intro ballI impI)
    fix i j
    assume "i \<in> set (open_for ?S service ns)" "j \<in> set (open_for ?S service ns)"
      "incident_id i \<noteq> incident_id j"
    then have "i \<in> set (dict_values ?S)" "j \<in> set (dict_values ?S)"
      "incident_id i \<noteq> incident_id j \<and> is_open i \<and> is_open j
       \<and> target_service i = target_service j \<and> target_namespace i = target_namespace j"
      by (simp_all add: open_for_set is_open_def)
    with inv show "?W < \<bar>created_at i - created_at j\<bar>" by blast
  qed
  have "distinct (map incident_id (dict_values ?S))"
    using wf by (simp add: wf_store_ids wf_store_def)
  then have "distinct (map incident_id (open_for ?S service ns))"
    unfolding open_for_def by (rule distinct_map_filter)
  then show "length (filter (\<lambda>i. c \<le> created_at i \<and> created_at i \<le> c + ?W)
               (open_for ?S service ns)) \<le> 1"
    using ap by (rule at_most_one_in_window)
next
  assume a: "cutoff_in_range now (incident_correlation_window_minutes settings)
        \<and> \<not> correlates store (signal_service sg) (signal_namespace sg)
              (incident_correlation_window_minutes settings) now
        \<and> new_id \<notin> set (map fst store)"
  then have r: "cutoff_in_range now (incident_correlation_window_minutes settings)"
    and nc: "\<not> correlates store (signal_service sg) (signal_namespace sg)
              (incident_correlation_window_minutes settings) now"
    and fresh: "new_id \<notin> set (map fst store)"
    by blast+
  from ingest_created[OF r nc, where new_id = new_id] obtain inc where
    inc: "ingest settings store (now, new_id, sg) = Inr ((Created, new_id), dict_set store new_id inc)"
         "is_open inc" "target_service inc = signal_service sg"
         "target_namespace inc = signal_namespace sg" "created_at inc = now"
    by blast
  have st: "dict_set store new_id inc = store @ [(new_id, inc)]"
    using fresh by (rule dict_set_absent)
  have "open_for (store @ [(new_id, inc)]) (signal_service sg) (signal_namespace sg)
          = open_for store (signal_service sg) (signal_namespace sg) @ [inc]"
    using inc(2,3,4) by (simp add: open_for_def dict_values_def)
  with inc show "\<exists>inc. ingest settings store (now, new_id, sg)
                  = Inr ((Created, new_id), store @ [(new_id, inc)])
           \<and> is_open inc \<and> created_at inc = now
           \<and> open_for (store @ [(new_id, inc)]) (signal_service sg) (signal_namespace sg)
               = open_for store (signal_service sg) (signal_namespace sg) @ [inc]"
    unfolding st by blast
next
  assume a: "cutoff_in_range now (incident_correlation_window_minutes settings)
        \<and> correlates store (signal_service sg) (signal_namespace sg)
             (incident_correlation_window_minutes settings) now
        \<and> wf_store store"
  then have r: "cutoff_in_range now (incident_correlation_window_minutes settings)"
    and wf: "wf_store store"
    by blast+
  from a obtain ex where ex: "List.find (is_related (signal_service sg) (signal_namespace sg)
           (now - timedelta_minutes (incident_correlation_window_minutes settings)))
           (dict_values store) = Some ex"
    unfolding correlates_find by blast
  from ingest_correlated[OF r wf ex, where new_id = new_id] obtain ex' where
    ex': "ingest settings store (now, new_id, sg)
            = Inr ((Correlated, incident_id ex), dict_set store (incident_id ex) ex')"
         "related_key ex' = related_key ex"
    by blast
  have g: "dict_get store (incident_id ex) = Some ex"
    using wf find_is_related_Some[OF ex] by (simp add: wf_store_get)
  have k: "map fst (dict_set store (incident_id ex) ex') = map fst store"
    using dict_get_dom[OF g] by (rule keys_dict_set_present)
  have "map related_key (dict_values (dict_set store (incident_id ex) ex'))
          = map related_key (dict_values store)"
    using g ex'(2) by (rule dict_set_same_image)
  then have "length (open_for (dict_set store (incident_id ex) ex') s n)
               = length (open_for store s n)" for s n
    unfolding open_for_def by (rule related_key_filter)
  with ex'(1) k
  show "\<exists>iid store'. ingest settings store (now, new_id, sg) = Inr ((Correlated, iid), store')
           \<and> map fst store' = map fst store
           \<and> (\<forall>s n. length (open_for store' s n) = length (open_for store s n))"
    by blast
next
  assume "\<not> cutoff_in_range now (incident_correlation_window_minutes settings)"
  from ingest_overflow[OF this, where store = store and new_id = new_id and sg = sg]
  obtain err where err: "ingest settings store (now, new_id, sg) = Inl err"
    by blast
  then show "\<exists>err. ingest settings store (now, new_id, sg) = Inl err"
    by blast
  from err show "ingest_all settings store [(now, new_id, sg)] = store"
    by (simp add: store_after_def)
qed

theorem open_incidents_window_apart_witness:
  "map incident_id (open_for (ingest_all example_settings [] two_signals) ''checkout'' ''default'')
     = [''inc-1'', ''inc-2'']
   \<and> map created_at (open_for (ingest_all example_settings [] two_signals) ''checkout'' ''default'')
     = [at_minute 0, at_minute 16]
   \<and> length (filter (\<lambda>i. at_minute 0 \<le> created_at i
                         \<and> created_at i \<le> at_minute 0 + timedelta_minutes 15)
               (open_for (ingest_all example_settings [] two_signals) ''checkout'' ''default''))
       \<le> 1
   \<and> (\<exists>inc. ingest example_settings one_store
               (at_minute 16, ''inc-2'', Anomaly (checkout_anomaly ''e2''))
             = Inr ((Created, ''inc-2''), one_store @ [(''inc-2'', inc)])
         \<and> length (open_for (one_store @ [(''inc-2'', inc)]) ''checkout'' ''default'') = 2)
   \<and> (\<exists>iid store'. ingest example_settings one_store
               (at_minute 15, ''inc-2'', Anomaly (checkout_anomaly ''e2''))
             = Inr ((Correlated, iid), store')
         \<and> length (open_for store' ''checkout'' ''default'') = 1)
   \<and> ingest_all wide_settings one_store
        [(at_minute 16, ''inc-2'', Anomaly (checkout_anomaly ''e2''))] = one_store"
proof -
  let ?sg = "Anomaly (checkout_anomaly ''e2'')"
  let ?S = "ingest_all example_settings [] two_signals"
  have w: "incident_correlation_window_minutes example_settings = 15"
    by (simp add: example_settings_def)
  have tgt: "signal_service ?sg = ''checkout''" "signal_namespace ?sg = ''default''"
    by (simp_all add: checkout_anomaly_def)
  have ids: "map incident_id (open_for ?S ''checkout'' ''default'') = [''inc-1'', ''inc-2'']"
    by code_simp
  have ts: "map created_at (open_for ?S ''checkout'' ''default'') = [at_minute 0, at_minute 16]"
    by code_simp
  have one: "length (open_for one_store ''checkout'' ''default'') = 1"
    by code_simp
  from open_incidents_window_apart[of example_settings two_signals "''checkout''" "''default''"
         "at_minute 0"]
  have b: "length (filter (\<lambda>i. at_minute 0 \<le> created_at i
                         \<and> created_at i \<le> at_minute 0 + timedelta_minutes 15)
               (open_for ?S ''checkout'' ''default'')) \<le> 1"
    unfolding w by blast
  have r16: "cutoff_in_range (at_minute 16) (incident_correlation_window_minutes example_settings)"
    by code_simp
  have nc: "\<not> correlates one_store (signal_service ?sg) (signal_namespace ?sg)
              (incident_correlation_window_minutes example_settings) (at_minute 16)"
    by code_simp
  have fresh: "''inc-2'' \<notin> set (map fst one_store)"
    by code_simp
  from open_incidents_window_apart[of example_settings _ _ _ _ "at_minute 16" one_store ?sg
         "''inc-2''"] r16 nc fresh
  obtain inc where inc: "ingest example_settings one_store (at_minute 16, ''inc-2'', ?sg)
             = Inr ((Created, ''inc-2''), one_store @ [(''inc-2'', inc)])"
    "open_for (one_store @ [(''inc-2'', inc)]) (signal_service ?sg) (signal_namespace ?sg)
       = open_for one_store (signal_service ?sg) (signal_namespace ?sg) @ [inc]"
    by blast
  have "length (open_for (one_store @ [(''inc-2'', inc)]) ''checkout'' ''default'') = 2"
    using inc(2) one unfolding tgt by simp
  with inc(1) have c: "\<exists>inc. ingest example_settings one_store (at_minute 16, ''inc-2'', ?sg)
             = Inr ((Created, ''inc-2''), one_store @ [(''inc-2'', inc)])
         \<and> length (open_for (one_store @ [(''inc-2'', inc)]) ''checkout'' ''default'') = 2"
    by blast
  have r15: "cutoff_in_range (at_minute 15) (incident_correlation_window_minutes example_settings)"
    by code_simp
  have co: "correlates one_store (signal_service ?sg) (signal_namespace ?sg)
              (incident_correlation_window_minutes example_settings) (at_minute 15)"
    by code_simp
  have wf: "wf_store one_store"
    by code_simp
  from open_incidents_window_apart[of example_settings _ _ _ _ "at_minute 15" one_store ?sg
         "''inc-2''"] r15 co wf
  obtain iid store' where
    "ingest example_settings one_store (at_minute 15, ''inc-2'', ?sg) = Inr ((Correlated, iid), store')"
    "\<forall>s n. length (open_for store' s n) = length (open_for one_store s n)"
    by blast
  with one have d: "\<exists>iid store'. ingest example_settings one_store (at_minute 15, ''inc-2'', ?sg)
             = Inr ((Correlated, iid), store')
         \<and> length (open_for store' ''checkout'' ''default'') = 1"
    by auto
  have ov: "\<not> cutoff_in_range (at_minute 16) (incident_correlation_window_minutes wide_settings)"
    by code_simp
  from open_incidents_window_apart[of wide_settings _ _ _ _ "at_minute 16" one_store ?sg
         "''inc-2''"] ov
  have e: "ingest_all wide_settings one_store [(at_minute 16, ''inc-2'', ?sg)] = one_store"
    by blast
  from ids ts b c d e show ?thesis by blast
qed

text \<open>
  Claim C7: an ingest whose cutoff is out of range raises and answers nothing. Otherwise
  the signal correlates exactly when the store holds an incident of its target with a
  status outside resolved and failed that was created within \<open>window_minutes\<close> of now.
  When every open incident of the target is strictly more than \<open>window_minutes\<close> old, the
  ingest creates a new incident under the new id; when one of them is strictly less than
  \<open>window_minutes\<close> old, the ingest correlates into an open incident of the target within
  the window, appends the signal's event id to its event ids, and adds no incident.
\<close>

theorem correlation_window_boundary:
  assumes wf: "wf_store store"
    and w: "w = incident_correlation_window_minutes settings"
  shows "(\<not> cutoff_in_range now w \<longrightarrow>
            (\<exists>err. ingest settings store (now, new_id, sg) = Inl err))
       \<and> (cutoff_in_range now w \<longrightarrow>
            (\<exists>r. ingest settings store (now, new_id, sg) = Inr r
               \<and> (fst (fst r) = Correlated \<longleftrightarrow>
                     correlates store (signal_service sg) (signal_namespace sg) w now)
               \<and> ((\<forall>i \<in> set (open_for store (signal_service sg) (signal_namespace sg)).
                      now - created_at i > timedelta_minutes w) \<longrightarrow>
                    fst r = (Created, new_id)
                    \<and> (\<exists>inc. get_incident (snd r) new_id = Some inc \<and> is_open inc
                          \<and> target_service inc = signal_service sg
                          \<and> target_namespace inc = signal_namespace sg
                          \<and> created_at inc = now \<and> event_ids inc = [signal_event_id sg])
                    \<and> (new_id \<notin> set (map fst store) \<longrightarrow>
                          map fst (snd r) = map fst store @ [new_id]))
               \<and> ((\<exists>i \<in> set (open_for store (signal_service sg) (signal_namespace sg)).
                      now - created_at i < timedelta_minutes w) \<longrightarrow>
                    (\<exists>ex \<in> set (open_for store (signal_service sg) (signal_namespace sg)).
                       \<exists>ex'. fst r = (Correlated, incident_id ex)
                         \<and> created_at ex \<ge> now - timedelta_minutes w
                         \<and> get_incident (snd r) (incident_id ex) = Some ex'
                         \<and> event_ids ex' = event_ids ex @ [signal_event_id sg]
                         \<and> map fst (snd r) = map fst store))))"
proof (intro conjI impI)
  assume "\<not> cutoff_in_range now w"
  then show "\<exists>err. ingest settings store (now, new_id, sg) = Inl err"
    unfolding w by (rule ingest_overflow)
next
  assume rg: "cutoff_in_range now w"
  then have rg': "cutoff_in_range now (incident_correlation_window_minutes settings)"
    unfolding w .
  let ?s = "signal_service sg" and ?n = "signal_namespace sg"
  show "\<exists>r. ingest settings store (now, new_id, sg) = Inr r
               \<and> (fst (fst r) = Correlated \<longleftrightarrow> correlates store ?s ?n w now)
               \<and> ((\<forall>i \<in> set (open_for store ?s ?n). now - created_at i > timedelta_minutes w) \<longrightarrow>
                    fst r = (Created, new_id)
                    \<and> (\<exists>inc. get_incident (snd r) new_id = Some inc \<and> is_open inc
                          \<and> target_service inc = ?s \<and> target_namespace inc = ?n
                          \<and> created_at inc = now \<and> event_ids inc = [signal_event_id sg])
                    \<and> (new_id \<notin> set (map fst store) \<longrightarrow>
                          map fst (snd r) = map fst store @ [new_id]))
               \<and> ((\<exists>i \<in> set (open_for store ?s ?n). now - created_at i < timedelta_minutes w) \<longrightarrow>
                    (\<exists>ex \<in> set (open_for store ?s ?n).
                       \<exists>ex'. fst r = (Correlated, incident_id ex)
                         \<and> created_at ex \<ge> now - timedelta_minutes w
                         \<and> get_incident (snd r) (incident_id ex) = Some ex'
                         \<and> event_ids ex' = event_ids ex @ [signal_event_id sg]
                         \<and> map fst (snd r) = map fst store))"
  proof (cases "correlates store ?s ?n w now")
    case False
    then have nc: "\<not> correlates store ?s ?n (incident_correlation_window_minutes settings) now"
      unfolding w .
    from ingest_created[OF rg' nc, where new_id = new_id] obtain inc where
      inc: "ingest settings store (now, new_id, sg)
              = Inr ((Created, new_id), dict_set store new_id inc)"
           "incident_id inc = new_id" "is_open inc" "target_service inc = ?s"
           "target_namespace inc = ?n" "created_at inc = now"
           "event_ids inc = [signal_event_id sg]"
      by blast
    let ?r = "((Created, new_id), dict_set store new_id inc)"
    have 1: "fst (fst ?r) = Correlated \<longleftrightarrow> correlates store ?s ?n w now"
      using False by simp
    have 2: "fst ?r = (Created, new_id)
             \<and> (\<exists>inc. get_incident (snd ?r) new_id = Some inc \<and> is_open inc
                   \<and> target_service inc = ?s \<and> target_namespace inc = ?n
                   \<and> created_at inc = now \<and> event_ids inc = [signal_event_id sg])
             \<and> (new_id \<notin> set (map fst store) \<longrightarrow> map fst (snd ?r) = map fst store @ [new_id])"
      using inc by (simp add: get_incident_def dict_get_dict_set dict_set_absent)
    have 3: "\<not> (\<exists>i \<in> set (open_for store ?s ?n). now - created_at i < timedelta_minutes w)"
      using False unfolding correlates_def Ball_def Bex_def open_for_set by fastforce
    from inc(1) 1 2 3 show ?thesis by blast
  next
    case True
    then obtain ex where ex: "List.find (is_related ?s ?n
             (now - timedelta_minutes (incident_correlation_window_minutes settings)))
             (dict_values store) = Some ex"
      unfolding correlates_find w by blast
    from find_is_related_Some[OF ex]
    have exin: "ex \<in> set (open_for store ?s ?n)"
      and exw: "created_at ex \<ge> now - timedelta_minutes w"
      and exv: "ex \<in> set (dict_values store)"
      unfolding w by (simp_all add: is_related_def open_for_set)
    from ingest_correlated[OF rg' wf ex, where new_id = new_id] obtain ex' where
      ex': "ingest settings store (now, new_id, sg)
              = Inr ((Correlated, incident_id ex), dict_set store (incident_id ex) ex')"
           "event_ids ex' = event_ids ex @ [signal_event_id sg]"
      by blast
    let ?r = "((Correlated, incident_id ex), dict_set store (incident_id ex) ex')"
    have "incident_id ex \<in> set (map fst store)"
      using wf_store_get[OF wf exv] by (rule dict_get_dom)
    then have k: "map fst (snd ?r) = map fst store"
      by (simp add: keys_dict_set_present)
    have 1: "fst (fst ?r) = Correlated \<longleftrightarrow> correlates store ?s ?n w now"
      using True by simp
    have 2: "\<not> (\<forall>i \<in> set (open_for store ?s ?n). now - created_at i > timedelta_minutes w)"
      using exin exw by force
    have 3: "\<exists>ex \<in> set (open_for store ?s ?n).
               \<exists>ex'. fst ?r = (Correlated, incident_id ex)
                 \<and> created_at ex \<ge> now - timedelta_minutes w
                 \<and> get_incident (snd ?r) (incident_id ex) = Some ex'
                 \<and> event_ids ex' = event_ids ex @ [signal_event_id sg]
                 \<and> map fst (snd ?r) = map fst store"
      using exin exw ex'(2) k by (auto simp: get_incident_def dict_get_dict_set)
    from ex'(1) 1 2 3 show ?thesis by blast
  qed
qed

theorem correlation_window_boundary_witness:
  "wf_store one_store
   \<and> cutoff_in_range (at_minute 16) 15 \<and> cutoff_in_range (at_minute 14) 15
   \<and> \<not> cutoff_in_range (at_minute 16) 2000000000
   \<and> (\<exists>r. ingest example_settings one_store
              (at_minute 16, ''inc-2'', Anomaly (checkout_anomaly ''e2'')) = Inr r
          \<and> fst r = (Created, ''inc-2''))
   \<and> (\<exists>r. ingest example_settings one_store
              (at_minute 14, ''inc-2'', Anomaly (checkout_anomaly ''e2'')) = Inr r
          \<and> fst r = (Correlated, ''inc-1''))
   \<and> (\<exists>err. ingest wide_settings one_store
              (at_minute 16, ''inc-2'', Anomaly (checkout_anomaly ''e2'')) = Inl err)"
proof -
  let ?sg = "Anomaly (checkout_anomaly ''e2'')"
  have wf: "wf_store one_store" by code_simp
  have w: "incident_correlation_window_minutes example_settings = 15"
    by (simp add: example_settings_def)
  have ww: "incident_correlation_window_minutes wide_settings = 2000000000"
    by (simp add: wide_settings_def)
  have r16: "cutoff_in_range (at_minute 16) 15" by code_simp
  have r14: "cutoff_in_range (at_minute 14) 15" by code_simp
  have ov: "\<not> cutoff_in_range (at_minute 16) 2000000000" by code_simp
  have old: "\<forall>i \<in> set (open_for one_store (signal_service ?sg) (signal_namespace ?sg)).
               at_minute 16 - created_at i > timedelta_minutes 15"
    by code_simp
  have young: "\<exists>i \<in> set (open_for one_store (signal_service ?sg) (signal_namespace ?sg)).
               at_minute 14 - created_at i < timedelta_minutes 15"
    by code_simp
  have ids: "list_all (\<lambda>i. incident_id i = ''inc-1'')
               (open_for one_store (signal_service ?sg) (signal_namespace ?sg))"
    by code_simp
  from correlation_window_boundary[OF wf w[symmetric],
         of "at_minute 16" "''inc-2''" ?sg] r16 old
  have a: "\<exists>r. ingest example_settings one_store (at_minute 16, ''inc-2'', ?sg) = Inr r
          \<and> fst r = (Created, ''inc-2'')"
    by blast
  from correlation_window_boundary[OF wf w[symmetric],
         of "at_minute 14" "''inc-2''" ?sg] r14 young
  obtain r ex where r: "ingest example_settings one_store (at_minute 14, ''inc-2'', ?sg) = Inr r"
    and ex: "ex \<in> set (open_for one_store (signal_service ?sg) (signal_namespace ?sg))"
            "fst r = (Correlated, incident_id ex)"
    by blast
  from ids ex(1) have "incident_id ex = ''inc-1''"
    by (simp add: list_all_iff)
  with r ex(2) have b: "\<exists>r. ingest example_settings one_store (at_minute 14, ''inc-2'', ?sg) = Inr r
          \<and> fst r = (Correlated, ''inc-1'')"
    by simp
  from correlation_window_boundary[OF wf ww[symmetric],
         of "at_minute 16" "''inc-2''" ?sg] ov
  have c: "\<exists>err. ingest wide_settings one_store (at_minute 16, ''inc-2'', ?sg) = Inl err"
    by blast
  from wf r16 r14 ov a b c show ?thesis by blast
qed


section \<open>Decision Maker: action selection and confidence\<close>

lemma match_patterns_find:
  "match_patterns ol tbl =
     (case List.find (\<lambda>(key, acts). contains ol key
                          \<or> contains ol (replace CHR ''_'' CHR '' '' key)) tbl of
        None \<Rightarrow> []
      | Some (key, acts) \<Rightarrow> take 2 acts)"
  by (induction ol tbl rule: match_patterns.induct) auto

lemma scan_recommended_eq:
  "scan_recommended selected recs = selected @ List.map_filter spec_hint recs"
  by (induction recs arbitrary: selected) (auto simp: Let_def map_filter_simps spec_hint_def)

lemma deduplicate_eq:
  "deduplicate seen unique sel = unique @ filter (\<lambda>y. fst y \<notin> seen) (keep_first sel)"
proof (induction sel arbitrary: seen unique)
  case Nil
  then show ?case by simp
next
  case (Cons x rest)
  obtain t r where x: "x = (t, r)" by (cases x)
  show ?case
  proof (cases "t \<in> seen")
    case True
    have "filter (\<lambda>y. fst y \<notin> seen) (filter (\<lambda>y. fst y \<noteq> t) (keep_first rest))
            = filter (\<lambda>y. fst y \<notin> seen) (keep_first rest)"
      using True by (auto intro: filter_cong)
    with True show ?thesis by (simp add: x Cons.IH)
  next
    case False
    have "filter (\<lambda>y. fst y \<notin> insert t seen) (keep_first rest)
            = filter (\<lambda>y. fst y \<notin> seen) (filter (\<lambda>y. fst y \<noteq> t) (keep_first rest))"
      by (auto intro: filter_cong)
    with False show ?thesis by (simp add: x Cons.IH)
  qed
qed

lemma select_actions_refines: "select_actions obs recs = spec_select_actions obs recs"
  by (simp add: select_actions_def spec_select_actions_def spec_table_candidates_def
        match_patterns_find scan_recommended_eq deduplicate_eq Let_def)

lemma distinct_keep_first: "distinct (map fst (keep_first xs))"
  by (induction xs) (auto simp: distinct_map_filter)

lemma distinct_select_actions: "distinct (map fst (select_actions obs recs))"
  unfolding select_actions_refines spec_select_actions_def
  by (simp add: take_map[symmetric] distinct_take distinct_keep_first)

lemma build_actions_types: "map action_type (build_actions ids k service ns xs) = map fst xs"
  by (induction ids k service ns xs rule: build_actions.induct) auto

lemma build_actions_Nil: "build_actions ids k service ns xs = [] \<longleftrightarrow> xs = []"
  by (cases xs) auto

lemma generate_plan_actions:
  "actions (generate_plan ids iid service ns obs ori recs) =
     (if select_actions obs recs = [] then [default_action (ids 1) service ns]
      else build_actions ids 1 service ns (select_actions obs recs))"
  by (simp add: generate_plan_def Let_def build_actions_Nil)

text \<open>
  Claim C5: \<open>_select_actions\<close> computes the selection that the specification words: the
  actions of the first table entry found in the lowercased observation (at most two),
  then the actions of the first two hints, the first of every action type kept and the
  result cut to three. Hints after the second change nothing. With no candidate, the plan
  holds exactly one action, the default one: a RESTART_POD of the target
  \<open>namespace/service\<close> with the parameters \<open>replicas\<close> 1 and \<open>strategy\<close> rolling, the
  fixed reasoning text, low risk and reversible; otherwise its actions have the selected
  types in the selected order.
\<close>

theorem select_actions_spec:
  "select_actions obs recs = spec_select_actions obs recs
   \<and> select_actions obs recs = select_actions obs (take 2 recs)
   \<and> distinct (map fst (select_actions obs recs))
   \<and> length (select_actions obs recs) \<le> 3
   \<and> (select_actions obs recs = [] \<longrightarrow>
        actions (generate_plan ids iid service ns obs ori recs)
          = [\<lparr>action_id = ids 1, action_type = RESTART_POD, target = ns @ ''/'' @ service,
             parameters = [(''replicas'', PInt 1), (''strategy'', PStr ''rolling'')],
             reasoning = ''Default recovery action - restart pods with rolling update'',
             risk_level = ''low'', reversible = True\<rparr>])
   \<and> (select_actions obs recs \<noteq> [] \<longrightarrow>
        map action_type (actions (generate_plan ids iid service ns obs ori recs))
          = map fst (select_actions obs recs))"
proof (intro conjI)
  show "select_actions obs recs = spec_select_actions obs recs"
    by (rule select_actions_refines)
  show "select_actions obs recs = select_actions obs (take 2 recs)"
    by (simp add: select_actions_def)
  show "distinct (map fst (select_actions obs recs))"
    by (rule distinct_select_actions)
  show "length (select_actions obs recs) \<le> 3"
    by (simp add: select_actions_def)
  show "select_actions obs recs = [] \<longrightarrow>
        actions (generate_plan ids iid service ns obs ori recs)
          = [\<lparr>action_id = ids 1, action_type = RESTART_POD, target = ns @ ''/'' @ service,
             parameters = [(''replicas'', PInt 1), (''strategy'', PStr ''rolling'')],
             reasoning = ''Default recovery action - restart pods with rolling update'',
             risk_level = ''low'', reversible = True\<rparr>]"
    by (simp add: generate_plan_actions default_action_def)
  show "select_actions obs recs \<noteq> [] \<longrightarrow>
        map action_type (actions (generate_plan ids iid service ns obs ori recs))
          = map fst (select_actions obs recs)"
    by (simp add: generate_plan_actions build_actions_types)
qed

theorem select_actions_spec_witness:
  "select_actions ''nothing here'' [] = []
   \<and> actions (generate_plan (example_ids ''u'') ''inc-1'' ''checkout'' ''default''
                ''nothing here'' ''ori'' [])
       = [\<lparr>action_id = ''u1'', action_type = RESTART_POD, target = ''default/checkout'',
             parameters = [(''replicas'', PInt 1), (''strategy'', PStr ''rolling'')],
             reasoning = ''Default recovery action - restart pods with rolling update'',
             risk_level = ''low'', reversible = True\<rparr>]
   \<and> map action_type
        (actions (generate_plan (example_ids ''u'') ''inc-1'' ''checkout'' ''default''
                    ''cpu overload seen'' ''ori''
                    [''Rollback the deploy'', ''restart it'', ''Scale out'']))
       = [SCALE_UP, INCREASE_RESOURCES, ROLLBACK]"
proof -
  have none: "select_actions ''nothing here'' [] = []"
    by code_simp
  have some: "select_actions ''cpu overload seen''
                [''Rollback the deploy'', ''restart it'', ''Scale out'']
              = [(SCALE_UP, ''Add more replicas to distribute load''),
                 (INCREASE_RESOURCES, ''Increase CPU limits if scaling not possible''),
                 (ROLLBACK, ''Rollback the deploy'')]"
    by code_simp
  have u1: "example_ids ''u'' 1 = ''u1''"
    by code_simp
  from select_actions_spec[of "''nothing here''" "[]" "example_ids ''u''" "''inc-1''"
         "''checkout''" "''default''" "''ori''"] none u1
  have a: "actions (generate_plan (example_ids ''u'') ''inc-1'' ''checkout'' ''default''
                ''nothing here'' ''ori'' [])
       = [\<lparr>action_id = ''u1'', action_type = RESTART_POD, target = ''default/checkout'',
             parameters = [(''replicas'', PInt 1), (''strategy'', PStr ''rolling'')],
             reasoning = ''Default recovery action - restart pods with rolling update'',
             risk_level = ''low'', reversible = True\<rparr>]"
    by simp
  from select_actions_spec[of "''cpu overload seen''"
         "[''Rollback the deploy'', ''restart it'', ''Scale out'']" "example_ids ''u''"
         "''inc-1''" "''checkout''" "''default''" "''ori''"] some
  have b: "map action_type
        (actions (generate_plan (example_ids ''u'') ''inc-1'' ''checkout'' ''default''
                    ''cpu overload seen'' ''ori''
                    [''Rollback the deploy'', ''restart it'', ''Scale out'']))
       = [SCALE_UP, INCREASE_RESOURCES, ROLLBACK]"
    by simp
  from none a b show ?thesis by blast
qed

text \<open>
  Claim C3 at a concrete input. For a request whose root cause is the known pattern
  \<open>error_rate_spike\<close>, the orientation text mentions a known pattern and no unknown one, and
  no selected action is high-risk, so the claim's score is 0.7 + 0.15 = 0.85. The plan's
  confidence is 0.7: \<open>generate_plan\<close> hands the observation, not the orientation, to
  \<open>_calculate_confidence\<close>, and the confidence of a plan is the same for every orientation
  text.
\<close>

theorem confidence_reads_observation:
  "contains (lower (orient known_request (observe known_request))) ''known pattern''
   \<and> \<not> contains (lower (orient known_request (observe known_request))) ''unknown pattern''
   \<and> \<not> list_ex (\<lambda>a. risk_level a = ''high'')
         (actions (decide (example_ids ''u'') known_request (observe known_request)
                     (orient known_request (observe known_request))))
   \<and> pl_confidence (decide (example_ids ''u'') known_request (observe known_request)
                      (orient known_request (observe known_request))) = 7 / 10
   \<and> pl_confidence (generate_plan ids iid service ns obs ori recs)
       = pl_confidence (generate_plan ids iid service ns obs ori' recs)"
proof (intro conjI)
  show "contains (lower (orient known_request (observe known_request))) ''known pattern''"
    by code_simp
  show "\<not> contains (lower (orient known_request (observe known_request))) ''unknown pattern''"
    by code_simp
  show "\<not> list_ex (\<lambda>a. risk_level a = ''high'')
         (actions (decide (example_ids ''u'') known_request (observe known_request)
                     (orient known_request (observe known_request))))"
    by code_simp
  show "pl_confidence (decide (example_ids ''u'') known_request (observe known_request)
                      (orient known_request (observe known_request))) = 7 / 10"
    by code_simp
  show "pl_confidence (generate_plan ids iid service ns obs ori recs)
       = pl_confidence (generate_plan ids iid service ns obs ori' recs)"
    by (simp add: generate_plan_def Let_def)
qed


section \<open>Engine operations: what they leave unchanged\<close>

lemma dict_get_dict_upd:
  "dict_get (dict_upd d k f) k' = (if k' = k then map_option f (dict_get d k) else dict_get d k')"
  by (auto simp: dict_upd_def dict_get_dict_set split: option.splits)

lemma keys_dict_upd: "map fst (dict_upd d k f) = map fst d"
proof (cases "dict_get d k")
  case None
  then show ?thesis by (simp add: dict_upd_def)
next
  case (Some v)
  from keys_dict_set_present[OF dict_get_dom[OF Some]] Some
  show ?thesis by (simp add: dict_upd_def)
qed

lemma dict_upd_twice: "dict_upd (dict_upd d k f) k g = dict_upd d k (\<lambda>v. g (f v))"
  by (auto simp: dict_upd_def dict_get_dict_set dict_set_twice split: option.splits)

lemma list_all_dict_set:
  "list_all P (dict_values d) \<Longrightarrow> P v \<Longrightarrow> list_all P (dict_values (dict_set d k v))"
  by (induction d) (auto simp: dict_values_def)

lemma dict_get_values: "dict_get d k = Some v \<Longrightarrow> v \<in> set (dict_values d)"
  by (induction d) (auto simp: dict_values_def split: if_splits)

lemma list_all_dict_upd:
  assumes "list_all P (dict_values d)" and "\<And>v. P v \<Longrightarrow> P (f v)"
  shows "list_all P (dict_values (dict_upd d k f))"
proof (cases "dict_get d k")
  case None
  then show ?thesis using assms(1) by (simp add: dict_upd_def)
next
  case (Some v)
  then have "P v" using assms(1) dict_get_values[OF Some] by (simp add: list_all_iff)
  then have "P (f v)" by (rule assms(2))
  with assms(1) Some show ?thesis by (simp add: dict_upd_def list_all_dict_set)
qed

lemma set_result_simps [simp]:
  "healings (set_result e hid f) = dict_upd (healings e) hid f"
  "states (set_result e hid f) = states e"
  "cooldowns (set_result e hid f) = cooldowns e"
  "history (set_result e hid f) = history e"
  by (simp_all add: set_result_def)

lemma set_state_simps [simp]:
  "healings (set_state e hid f) = healings e"
  "states (set_state e hid f) = dict_upd (states e) hid f"
  "cooldowns (set_state e hid f) = cooldowns e"
  "history (set_state e hid f) = history e"
  by (simp_all add: set_state_def)

lemma act_simps [simp]:
  "healings (act b e hid p) = dict_upd (healings e) hid (\<lambda>r. act_loop b r (actions p))"
  "states (act b e hid p) = states e"
  "cooldowns (act b e hid p) = cooldowns e"
  "history (act b e hid p) = history e"
  by (simp_all add: act_def)

lemma act_loop_eq:
  "act_loop b r as =
     r\<lparr>actions_executed := actions_executed r + int (length as),
       actions_successful := actions_successful r + int (length (filter (execute_action b) as))\<rparr>"
  by (induction as arbitrary: r) (auto simp: Let_def)

lemma register_healing_simps [simp]:
  "healings (register_healing e r) = dict_set (healings e) (healing_id r) r"
  "cooldowns (register_healing e r) = cooldowns e"
  "history (register_healing e r) = history e"
  by (simp_all add: register_healing_def)

lemma run_ooda_loop_history [simp]: "history (run_ooda_loop settings env e hid request) = history e"
  by (simp add: run_ooda_loop_def Let_def split: option.splits sum.splits error.splits)

lemma generate_plan_only_history [simp]: "history (generate_plan_only env e hid request) = history e"
  by (simp add: generate_plan_only_def Let_def split: option.splits)

lemma analyze_only_history [simp]: "history (analyze_only env e hid request) = history e"
  by (simp add: analyze_only_def Let_def split: option.splits)

lemma execute_plan_history [simp]: "history (execute_plan env e hid) = history e"
  by (simp add: execute_plan_def Let_def split: option.splits)

lemma run_ooda_loop_keys [simp]:
  "map fst (healings (run_ooda_loop settings env e hid request)) = map fst (healings e)"
  by (simp add: run_ooda_loop_def Let_def keys_dict_upd split: option.splits sum.splits error.splits)

lemma generate_plan_only_keys [simp]:
  "map fst (healings (generate_plan_only env e hid request)) = map fst (healings e)"
  by (simp add: generate_plan_only_def Let_def keys_dict_upd split: option.splits)

lemma analyze_only_keys [simp]:
  "map fst (healings (analyze_only env e hid request)) = map fst (healings e)"
  by (simp add: analyze_only_def Let_def keys_dict_upd split: option.splits)

lemma execute_plan_keys [simp]:
  "map fst (healings (execute_plan env e hid)) = map fst (healings e)"
  by (simp add: execute_plan_def Let_def keys_dict_upd split: option.splits)

lemma run_task_history [simp]: "history (run_task settings env e t) = history e"
  by (cases t) simp_all

lemma run_task_keys [simp]: "map fst (healings (run_task settings env e t)) = map fst (healings e)"
  by (cases t) simp_all

lemma cancel_healing_simps [simp]:
  "history (snd (cancel_healing env e hid)) = history e"
  "map fst (healings (snd (cancel_healing env e hid))) = map fst (healings e)"
  by (simp_all add: cancel_healing_def Let_def keys_dict_upd)

lemma trigger_healing_Inr:
  assumes "trigger_healing settings env e request = Inr (result, e', task)"
  shows "history e' = history e"
    and "cooldowns e' = cooldowns e"
    and "healings e' = dict_set (healings e) (uuid env 0) result"
    and "healing_id result = uuid env 0"
    and "hr_incident_id result = rq_incident_id request"
    and "plan result = None" and "actions_executed result = 0"
    and "healing_mode settings = AUTO \<Longrightarrow> hr_status result = OBSERVING \<and> task = RunOodaLoop (uuid env 0) request"
    and "healing_mode settings = SEMI_AUTO \<Longrightarrow> hr_status result = DECIDING \<and> task = GeneratePlanOnly (uuid env 0) request"
    and "healing_mode settings = MANUAL \<Longrightarrow> hr_status result = ORIENTING \<and> task = AnalyzeOnly (uuid env 0) request"
  using assms
  by (auto simp: trigger_healing_def Let_def new_healing_result_def dict_upd_def dict_get_dict_set
        dict_set_twice split: if_splits)

lemma step_history [simp]: "history (engine (step settings a ev)) = history (engine a)"
  by (cases ev) (auto split: sum.splits dest: trigger_healing_Inr(1))

lemma run_history: "history (engine (run settings a evs)) = history (engine a)"
  by (induction evs arbitrary: a) simp_all



section \<open>Execution after approval\<close>

lemma execute_plan_result:
  assumes "get_healing e hid = Some result" and "plan result = Some p"
  shows "get_healing (execute_plan env e hid) hid =
           Some (result\<lparr>hr_status := COMPLETED,
                        completed_at := Some (clock env),
                        result_message := Some ''Plan executed successfully'',
                        actions_executed := actions_executed result + int (length (actions p)),
                        actions_successful := actions_successful result
                          + int (length (filter (execute_action (backend env)) (actions p)))\<rparr>)"
  using assms
  by (simp add: get_healing_def execute_plan_def Let_def dict_get_dict_upd dict_upd_twice act_loop_eq)

text \<open>
  Claim C10: for a healing with a stored plan, \<open>execute_plan\<close> ends with the healing
  completed, stamped with the time and the message of success, whatever the executor
  answered; \<open>actions_executed\<close> grows by the number of the plan's actions and
  \<open>actions_successful\<close> by the number of dispatches that succeeded. When every dispatch
  fails the healing is completed all the same, with no error message added. The function
  has no validation step: it reads nothing but the plan and the executor's answers, and
  it leaves the states and the cooldowns as they are.
\<close>

theorem execute_plan_completes:
  assumes "get_healing e hid = Some result" and "plan result = Some p"
  shows "get_healing (execute_plan env e hid) hid =
           Some (result\<lparr>hr_status := COMPLETED,
                        completed_at := Some (clock env),
                        result_message := Some ''Plan executed successfully'',
                        actions_executed := actions_executed result + int (length (actions p)),
                        actions_successful := actions_successful result
                          + int (length (filter (execute_action (backend env)) (actions p)))\<rparr>)
       \<and> (list_all (\<lambda>a. \<not> execute_action (backend env) a) (actions p) \<longrightarrow>
            map_option hr_status (get_healing (execute_plan env e hid) hid) = Some COMPLETED
            \<and> map_option error_message (get_healing (execute_plan env e hid) hid)
                = Some (error_message result)
            \<and> map_option actions_successful (get_healing (execute_plan env e hid) hid)
                = Some (actions_successful result))
       \<and> cooldowns (execute_plan env e hid) = cooldowns e
       \<and> states (execute_plan env e hid) = states e"
proof (intro conjI impI)
  show r: "get_healing (execute_plan env e hid) hid =
           Some (result\<lparr>hr_status := COMPLETED,
                        completed_at := Some (clock env),
                        result_message := Some ''Plan executed successfully'',
                        actions_executed := actions_executed result + int (length (actions p)),
                        actions_successful := actions_successful result
                          + int (length (filter (execute_action (backend env)) (actions p)))\<rparr>)"
    using assms by (rule execute_plan_result)
  show "cooldowns (execute_plan env e hid) = cooldowns e"
    by (simp add: execute_plan_def Let_def split: option.splits)
  show "states (execute_plan env e hid) = states e"
    by (simp add: execute_plan_def Let_def split: option.splits)
  assume failed: "list_all (\<lambda>a. \<not> execute_action (backend env) a) (actions p)"
  then have none: "filter (execute_action (backend env)) (actions p) = []"
    by (simp add: filter_empty_conv list_all_iff)
  show "map_option hr_status (get_healing (execute_plan env e hid) hid) = Some COMPLETED"
    by (simp add: r)
  show "map_option error_message (get_healing (execute_plan env e hid) hid)
          = Some (error_message result)"
    by (simp add: r)
  show "map_option actions_successful (get_healing (execute_plan env e hid) hid)
          = Some (actions_successful result)"
    by (simp add: r none)
qed



theorem execute_plan_completes_witness:
  "hr_status planned_result = DECIDING
   \<and> length (actions planned_plan) = 2
   \<and> map_option hr_status
       (get_healing (execute_plan (env_at 2 ''q-'' (StatusCode 500)) (engine planned_agent) ''h-0'') ''h-0'')
       = Some COMPLETED
   \<and> map_option actions_executed
       (get_healing (execute_plan (env_at 2 ''q-'' (StatusCode 500)) (engine planned_agent) ''h-0'') ''h-0'')
       = Some 2
   \<and> map_option actions_successful
       (get_healing (execute_plan (env_at 2 ''q-'' (StatusCode 500)) (engine planned_agent) ''h-0'') ''h-0'')
       = Some 0"
proof -
  let ?env = "env_at 2 ''q-'' (StatusCode 500)"
  have g: "get_healing (engine planned_agent) ''h-0'' = Some planned_result"
    by code_simp
  have p: "plan planned_result = Some planned_plan"
    by code_simp
  have st: "hr_status planned_result = DECIDING"
    by code_simp
  have n: "length (actions planned_plan) = 2"
    by code_simp
  have z: "actions_executed planned_result = 0" "actions_successful planned_result = 0"
    by code_simp+
  have f: "list_all (\<lambda>a. \<not> execute_action (backend ?env) a) (actions planned_plan)"
    by (simp add: env_at_def execute_action_def list_all_iff)
  have none: "filter (execute_action (backend ?env)) (actions planned_plan) = []"
    using f by (simp add: filter_empty_conv list_all_iff)
  from execute_plan_completes[OF g p, of ?env]
  have eq: "get_healing (execute_plan ?env (engine planned_agent) ''h-0'') ''h-0'' =
           Some (planned_result\<lparr>hr_status := COMPLETED,
                        completed_at := Some (clock ?env),
                        result_message := Some ''Plan executed successfully'',
                        actions_executed := actions_executed planned_result
                          + int (length (actions planned_plan)),
                        actions_successful := actions_successful planned_result
                          + int (length (filter (execute_action (backend ?env))
                                           (actions planned_plan)))\<rparr>)"
    by blast
  have a: "map_option hr_status
       (get_healing (execute_plan ?env (engine planned_agent) ''h-0'') ''h-0'') = Some COMPLETED"
    unfolding eq by simp
  have b: "map_option actions_executed
       (get_healing (execute_plan ?env (engine planned_agent) ''h-0'') ''h-0'') = Some 2"
    unfolding eq using n z by simp
  have c: "map_option actions_successful
       (get_healing (execute_plan ?env (engine planned_agent) ''h-0'') ''h-0'') = Some 0"
    unfolding eq none using z by simp
  from st n a b c show ?thesis by blast
qed

section \<open>Cancellation\<close>

text \<open>
  Claim C4, as stated, fails: a healing that the auto pipeline completed at minute 1 and
  that is cancelled at minute 5 ends cancelled, with \<open>completed_at\<close> at minute 5.
\<close>

theorem cancel_completed_healing:
  "map_option hr_status (get_healing (engine auto_agent) ''h-0'') = Some COMPLETED
   \<and> map_option completed_at (get_healing (engine auto_agent) ''h-0'')
       = Some (Some (timedelta_minutes 1))
   \<and> map_option hr_status
       (fst (cancel_healing (env_at 5 ''c-'' (StatusCode 200)) (engine auto_agent) ''h-0''))
       = Some CANCELLED
   \<and> map_option completed_at
       (fst (cancel_healing (env_at 5 ''c-'' (StatusCode 200)) (engine auto_agent) ''h-0''))
       = Some (Some (timedelta_minutes 5))"
  by code_simp

text \<open>
  Claim C4, amended: \<open>cancel(healing_id)\<close> is unconditional. For every registered healing,
  in a terminal status or not, it sets the status to cancelled and \<open>completed_at\<close> to the
  current time, changes nothing else, and the route answers with success; for an unknown
  id it changes nothing and the route answers 404.
\<close>

theorem cancel_healing_unconditional:
  "(get_healing e hid = Some result \<longrightarrow>
      cancel_healing env e hid =
        (Some (result\<lparr>hr_status := CANCELLED, completed_at := Some (clock env)\<rparr>),
         e\<lparr>healings := dict_set (healings e) hid
                          (result\<lparr>hr_status := CANCELLED, completed_at := Some (clock env)\<rparr>)\<rparr>)
      \<and> cancel_route env e hid = Inr (snd (cancel_healing env e hid)))
   \<and> (get_healing e hid = None \<longrightarrow>
        cancel_healing env e hid = (None, e)
        \<and> cancel_route env e hid = Inl (HTTPException 404 ''Healing not found''))"
  by (simp add: get_healing_def cancel_healing_def cancel_route_def Let_def set_result_def
        dict_upd_def dict_get_dict_set)

theorem cancel_healing_unconditional_witness:
  "map_option hr_status
       (fst (cancel_healing (env_at 5 ''c-'' (StatusCode 200)) (engine auto_agent) ''h-0''))
     = Some CANCELLED
   \<and> cancel_healing (env_at 5 ''c-'' (StatusCode 200)) (engine auto_agent) ''nobody''
       = (None, engine auto_agent)"
proof -
  let ?env = "env_at 5 ''c-'' (StatusCode 200)"
  have g: "get_healing (engine auto_agent) ''h-0''
             = Some (the (get_healing (engine auto_agent) ''h-0''))"
    by code_simp
  have n: "get_healing (engine auto_agent) ''nobody'' = None"
    by code_simp
  from cancel_healing_unconditional[of "engine auto_agent" "''h-0''"
         "the (get_healing (engine auto_agent) ''h-0'')" ?env] g
  have a: "map_option hr_status (fst (cancel_healing ?env (engine auto_agent) ''h-0''))
             = Some CANCELLED"
    by simp
  from cancel_healing_unconditional[of "engine auto_agent" "''nobody''" undefined ?env] n
  have b: "cancel_healing ?env (engine auto_agent) ''nobody'' = (None, engine auto_agent)"
    by simp
  from a b show ?thesis by blast
qed


section \<open>Admission of a trigger\<close>

text \<open>
  Claim C6: \<open>trigger_healing\<close> decides by three checks in a fixed order, the first
  failure winning. It answers 409 when some healing of the same incident is not terminal;
  otherwise 429 when the number of healings that are not terminal, over all incidents, is
  at least \<open>max_concurrent_healings\<close>; otherwise 429 when the target service is in
  cooldown and \<open>force\<close> is false. Otherwise, the cooldown being over or absent or the
  request forced, it registers a new healing under a fresh id, with the request's
  incident id, a status that is not terminal and an OODA state, and leaves the cooldowns
  as they are.
\<close>

theorem trigger_healing_admission:
  "((\<exists>h \<in> set (dict_values (healings e)).
       hr_incident_id h = rq_incident_id request
       \<and> hr_status h \<notin> {COMPLETED, FAILED, CANCELLED}) \<longrightarrow>
      trigger_healing settings env e request =
        Inl (HTTPException 409
              (''Healing already in progress for incident '' @ rq_incident_id request)))
   \<and> (\<not> (\<exists>h \<in> set (dict_values (healings e)).
           hr_incident_id h = rq_incident_id request
           \<and> hr_status h \<notin> {COMPLETED, FAILED, CANCELLED})
       \<and> max_concurrent_healings settings
           \<le> int (length (filter (\<lambda>h. hr_status h \<notin> {COMPLETED, FAILED, CANCELLED})
                            (dict_values (healings e)))) \<longrightarrow>
      trigger_healing settings env e request =
        Inl (HTTPException 429
              (''Maximum concurrent healings ('' @ str_int (max_concurrent_healings settings)
               @ '') reached'')))
   \<and> (\<not> (\<exists>h \<in> set (dict_values (healings e)).
           hr_incident_id h = rq_incident_id request
           \<and> hr_status h \<notin> {COMPLETED, FAILED, CANCELLED})
       \<and> int (length (filter (\<lambda>h. hr_status h \<notin> {COMPLETED, FAILED, CANCELLED})
                        (dict_values (healings e)))) < max_concurrent_healings settings
       \<and> (\<exists>until. dict_get (cooldowns e) (rq_target_service request) = Some until
                   \<and> clock env < until)
       \<and> \<not> force request \<longrightarrow>
      trigger_healing settings env e request =
        Inl (HTTPException 429
              (''Service '' @ rq_target_service request @ '' is in cooldown period'')))
   \<and> (\<not> (\<exists>h \<in> set (dict_values (healings e)).
           hr_incident_id h = rq_incident_id request
           \<and> hr_status h \<notin> {COMPLETED, FAILED, CANCELLED})
       \<and> int (length (filter (\<lambda>h. hr_status h \<notin> {COMPLETED, FAILED, CANCELLED})
                        (dict_values (healings e)))) < max_concurrent_healings settings
       \<and> ((\<forall>until. dict_get (cooldowns e) (rq_target_service request) = Some until
                    \<longrightarrow> until \<le> clock env)
           \<or> force request) \<longrightarrow>
      (\<exists>result e' task.
          trigger_healing settings env e request = Inr (result, e', task)
          \<and> get_healing e' (uuid env 0) = Some result
          \<and> healing_id result = uuid env 0
          \<and> hr_incident_id result = rq_incident_id request
          \<and> hr_status result \<notin> {COMPLETED, FAILED, CANCELLED}
          \<and> get_ooda_state e' (uuid env 0) \<noteq> None
          \<and> cooldowns e' = cooldowns e))"
proof (intro conjI impI)
  assume "\<exists>h \<in> set (dict_values (healings e)).
       hr_incident_id h = rq_incident_id request
       \<and> hr_status h \<notin> {COMPLETED, FAILED, CANCELLED}"
  then have "is_healing e (rq_incident_id request)"
    by (simp add: is_healing_def list_ex_iff)
  then show "trigger_healing settings env e request =
        Inl (HTTPException 409
              (''Healing already in progress for incident '' @ rq_incident_id request))"
    by (simp add: trigger_healing_def)
next
  assume a: "\<not> (\<exists>h \<in> set (dict_values (healings e)).
           hr_incident_id h = rq_incident_id request
           \<and> hr_status h \<notin> {COMPLETED, FAILED, CANCELLED})
       \<and> max_concurrent_healings settings
           \<le> int (length (filter (\<lambda>h. hr_status h \<notin> {COMPLETED, FAILED, CANCELLED})
                            (dict_values (healings e))))"
  then have "\<not> is_healing e (rq_incident_id request)"
    by (simp add: is_healing_def list_ex_iff)
  moreover from a have "max_concurrent_healings settings \<le> get_active_count e"
    by (simp add: get_active_count_def)
  ultimately show "trigger_healing settings env e request =
        Inl (HTTPException 429
              (''Maximum concurrent healings ('' @ str_int (max_concurrent_healings settings)
               @ '') reached''))"
    by (simp add: trigger_healing_def)
next
  assume a: "\<not> (\<exists>h \<in> set (dict_values (healings e)).
           hr_incident_id h = rq_incident_id request
           \<and> hr_status h \<notin> {COMPLETED, FAILED, CANCELLED})
       \<and> int (length (filter (\<lambda>h. hr_status h \<notin> {COMPLETED, FAILED, CANCELLED})
                        (dict_values (healings e)))) < max_concurrent_healings settings
       \<and> (\<exists>until. dict_get (cooldowns e) (rq_target_service request) = Some until
                   \<and> clock env < until)
       \<and> \<not> force request"
  then have "\<not> is_healing e (rq_incident_id request)"
    by (simp add: is_healing_def list_ex_iff)
  moreover from a have "\<not> max_concurrent_healings settings \<le> get_active_count e"
    by (simp add: get_active_count_def)
  moreover from a have "is_in_cooldown e (rq_target_service request) (clock env)"
    by (auto simp: is_in_cooldown_def)
  ultimately show "trigger_healing settings env e request =
        Inl (HTTPException 429
              (''Service '' @ rq_target_service request @ '' is in cooldown period''))"
    using a by (simp add: trigger_healing_def)
next
  assume a: "\<not> (\<exists>h \<in> set (dict_values (healings e)).
           hr_incident_id h = rq_incident_id request
           \<and> hr_status h \<notin> {COMPLETED, FAILED, CANCELLED})
       \<and> int (length (filter (\<lambda>h. hr_status h \<notin> {COMPLETED, FAILED, CANCELLED})
                        (dict_values (healings e)))) < max_concurrent_healings settings
       \<and> ((\<forall>until. dict_get (cooldowns e) (rq_target_service request) = Some until
                    \<longrightarrow> until \<le> clock env)
           \<or> force request)"
  then have 1: "\<not> is_healing e (rq_incident_id request)"
    by (simp add: is_healing_def list_ex_iff)
  from a have 2: "\<not> max_concurrent_healings settings \<le> get_active_count e"
    by (simp add: get_active_count_def)
  from a have 3: "\<not> (is_in_cooldown e (rq_target_service request) (clock env) \<and> \<not> force request)"
    by (auto simp: is_in_cooldown_def split: option.splits)
  show "\<exists>result e' task.
          trigger_healing settings env e request = Inr (result, e', task)
          \<and> get_healing e' (uuid env 0) = Some result
          \<and> healing_id result = uuid env 0
          \<and> hr_incident_id result = rq_incident_id request
          \<and> hr_status result \<notin> {COMPLETED, FAILED, CANCELLED}
          \<and> get_ooda_state e' (uuid env 0) \<noteq> None
          \<and> cooldowns e' = cooldowns e"
    using 1 2 3
    by (cases "healing_mode settings")
       (auto simp: trigger_healing_def Let_def new_healing_result_def get_healing_def
          get_ooda_state_def register_healing_def dict_get_dict_upd dict_get_dict_set)
qed

theorem trigger_healing_admission_witness:
  "trigger_healing auto_settings (env_at 0 ''g-'' (StatusCode 200)) (engine pending_agent)
       known_request
     = Inl (HTTPException 409 ''Healing already in progress for incident inc-1'')
   \<and> trigger_healing single_settings (env_at 0 ''g-'' (StatusCode 200)) (engine pending_agent)
       other_request
     = Inl (HTTPException 429 ''Maximum concurrent healings (1) reached'')
   \<and> trigger_healing auto_settings (env_at 2 ''g-'' (StatusCode 200)) (engine auto_agent)
       other_request
     = Inl (HTTPException 429 ''Service checkout is in cooldown period'')
   \<and> (\<exists>result e' task.
        trigger_healing auto_settings (env_at 2 ''g-'' (StatusCode 200)) (engine auto_agent)
          forced_request = Inr (result, e', task)
        \<and> get_healing e' ''g-0'' = Some result)"
proof -
  let ?env0 = "env_at 0 ''g-'' (StatusCode 200)"
  let ?env2 = "env_at 2 ''g-'' (StatusCode 200)"
  have a: "\<exists>h \<in> set (dict_values (healings (engine pending_agent))).
             hr_incident_id h = rq_incident_id known_request
             \<and> hr_status h \<notin> {COMPLETED, FAILED, CANCELLED}"
    by code_simp
  have b: "\<not> (\<exists>h \<in> set (dict_values (healings (engine pending_agent))).
             hr_incident_id h = rq_incident_id other_request
             \<and> hr_status h \<notin> {COMPLETED, FAILED, CANCELLED})
       \<and> max_concurrent_healings single_settings
           \<le> int (length (filter (\<lambda>h. hr_status h \<notin> {COMPLETED, FAILED, CANCELLED})
                            (dict_values (healings (engine pending_agent)))))"
    by code_simp
  have c1: "\<not> (\<exists>h \<in> set (dict_values (healings (engine auto_agent))).
             hr_incident_id h = rq_incident_id other_request
             \<and> hr_status h \<notin> {COMPLETED, FAILED, CANCELLED})"
    by code_simp
  have c2: "int (length (filter (\<lambda>h. hr_status h \<notin> {COMPLETED, FAILED, CANCELLED})
                        (dict_values (healings (engine auto_agent)))))
              < max_concurrent_healings auto_settings"
    by code_simp
  have c3: "dict_get (cooldowns (engine auto_agent)) (rq_target_service other_request)
              = Some (timedelta_minutes 11)"
    by code_simp
  have c4: "clock ?env2 < timedelta_minutes 11" "\<not> force other_request"
    by code_simp+
  have d1: "\<not> (\<exists>h \<in> set (dict_values (healings (engine auto_agent))).
             hr_incident_id h = rq_incident_id forced_request
             \<and> hr_status h \<notin> {COMPLETED, FAILED, CANCELLED})"
    by code_simp
  have d2: "force forced_request"
    by code_simp
  have s: "rq_incident_id known_request = ''inc-1''"
          "str_int (max_concurrent_healings single_settings) = ''1''"
          "rq_target_service other_request = ''checkout''"
          "uuid ?env2 0 = ''g-0''"
    by code_simp+
  from trigger_healing_admission[of "engine pending_agent" known_request auto_settings ?env0] a
  have r1: "trigger_healing auto_settings ?env0 (engine pending_agent) known_request
     = Inl (HTTPException 409 ''Healing already in progress for incident inc-1'')"
    unfolding s by simp
  from trigger_healing_admission[of "engine pending_agent" other_request single_settings ?env0] b
  have r2: "trigger_healing single_settings ?env0 (engine pending_agent) other_request
     = Inl (HTTPException 429 ''Maximum concurrent healings (1) reached'')"
    unfolding s by simp
  from trigger_healing_admission[of "engine auto_agent" other_request auto_settings ?env2]
       c1 c2 c3 c4
  have r3: "trigger_healing auto_settings ?env2 (engine auto_agent) other_request
     = Inl (HTTPException 429 ''Service checkout is in cooldown period'')"
    unfolding s by simp
  from trigger_healing_admission[of "engine auto_agent" forced_request auto_settings ?env2]
       d1 c2 d2
  have r4: "\<exists>result e' task.
        trigger_healing auto_settings ?env2 (engine auto_agent) forced_request
          = Inr (result, e', task)
        \<and> get_healing e' ''g-0'' = Some result"
    unfolding s by blast
  from r1 r2 r3 r4 show ?thesis by blast
qed



section \<open>The archive\<close>

lemma step_keys:
  assumes "set (registered_ids settings a [ev]) \<inter> set (map fst (healings (engine a))) = {}"
  shows "map fst (healings (engine (step settings a ev)))
           = map fst (healings (engine a)) @ registered_ids settings a [ev]"
proof (cases ev)
  case (Heal request env)
  show ?thesis
  proof (cases "trigger_healing settings env (engine a) request")
    case (Inl err)
    then show ?thesis unfolding Heal by simp
  next
    case (Inr x)
    obtain result e' task where x: "x = (result, e', task)" by (cases x)
    have t: "trigger_healing settings env (engine a) request = Inr (result, e', task)"
      using Inr x by simp
    have h: "healings e' = dict_set (healings (engine a)) (uuid env 0) result"
      by (rule trigger_healing_Inr(3)[OF t])
    have r: "registered_ids settings a [ev] = [uuid env 0]"
      unfolding Heal by (simp add: t)
    have s: "engine (step settings a ev) = e'"
      unfolding Heal by (simp add: t)
    from assms have "uuid env 0 \<notin> set (map fst (healings (engine a)))"
      unfolding r by simp
    then have "dict_set (healings (engine a)) (uuid env 0) result
                 = healings (engine a) @ [(uuid env 0, result)]"
      by (rule dict_set_absent)
    then show ?thesis unfolding r s h by simp
  qed
next
  case (Approve hid)
  show ?thesis unfolding Approve by (simp split: sum.splits)
next
  case (Cancel hid env)
  show ?thesis unfolding Cancel by simp
next
  case (RunTask i env)
  show ?thesis unfolding RunTask by simp
qed

lemma registered_ids_Cons:
  "registered_ids settings a (ev # evs)
     = registered_ids settings a [ev] @ registered_ids settings (step settings a ev) evs"
  by simp

lemma run_keys:
  "distinct (map fst (healings (engine a)) @ registered_ids settings a evs)
     \<Longrightarrow> map fst (healings (engine (run settings a evs)))
           = map fst (healings (engine a)) @ registered_ids settings a evs"
proof (induction evs arbitrary: a)
  case Nil
  then show ?case by simp
next
  case (Cons ev evs)
  define a' where "a' = step settings a ev"
  define ks where "ks = map fst (healings (engine a))"
  define r1 where "r1 = registered_ids settings a [ev]"
  define r2 where "r2 = registered_ids settings a' evs"
  have sp: "registered_ids settings a (ev # evs) = r1 @ r2"
    unfolding r1_def r2_def a'_def by (rule registered_ids_Cons)
  from Cons.prems have d: "distinct (ks @ r1 @ r2)"
    unfolding sp ks_def .
  then have "set r1 \<inter> set ks = {}"
    by auto
  then have k: "map fst (healings (engine a')) = ks @ r1"
    unfolding r1_def ks_def a'_def by (rule step_keys)
  from d have "distinct (map fst (healings (engine a')) @ r2)"
    unfolding k by simp
  then have "map fst (healings (engine (run settings a' evs)))
               = map fst (healings (engine a')) @ r2"
    unfolding r2_def by (rule Cons.IH)
  moreover have "run settings a (ev # evs) = run settings a' evs"
    unfolding a'_def by simp
  ultimately have "map fst (healings (engine (run settings a (ev # evs)))) = ks @ r1 @ r2"
    unfolding k by simp
  then show ?case
    unfolding sp ks_def .
qed

text \<open>
  Claim C9: no operation of the engine appends to \<open>_history\<close>. In every state that a run
  of the agent reaches from the initial one the archive is empty, so \<open>get_success_rate\<close>
  and \<open>get_average_duration\<close> return 0 and \<open>get_total_count\<close> is the number of the
  healings in the dict; when the ids drawn for the registered healings are distinct, that
  is the number of healings ever registered, whatever became of them.
\<close>

theorem archive_always_empty:
  "history (engine (run settings init_agent evs)) = []
   \<and> get_success_rate (engine (run settings init_agent evs)) = 0
   \<and> get_average_duration (engine (run settings init_agent evs)) = 0
   \<and> get_total_count (engine (run settings init_agent evs))
       = int (length (healings (engine (run settings init_agent evs))))
   \<and> (distinct (registered_ids settings init_agent evs) \<longrightarrow>
        get_total_count (engine (run settings init_agent evs))
          = int (length (registered_ids settings init_agent evs)))"
proof -
  have h: "history (engine (run settings init_agent evs)) = []"
    by (simp add: run_history init_agent_def init_engine_def)
  have k: "map fst (healings (engine (run settings init_agent evs)))
             = registered_ids settings init_agent evs"
    if "distinct (registered_ids settings init_agent evs)"
    using run_keys[of init_agent settings evs] that
    by (simp add: init_agent_def init_engine_def)
  have "length (healings (engine (run settings init_agent evs)))
          = length (registered_ids settings init_agent evs)"
    if "distinct (registered_ids settings init_agent evs)"
    using k[OF that] by (metis length_map)
  then show ?thesis
    by (simp add: h get_success_rate_def get_average_duration_def get_total_count_def)
qed

theorem archive_always_empty_witness:
  "registered_ids auto_settings init_agent two_heals = [''h-0'', ''g-0'']
   \<and> map (\<lambda>h. hr_status h) (dict_values (healings (engine (run auto_settings init_agent two_heals))))
       = [COMPLETED, COMPLETED]
   \<and> get_total_count (engine (run auto_settings init_agent two_heals)) = 2
   \<and> get_success_rate (engine (run auto_settings init_agent two_heals)) = 0"
proof -
  have r: "registered_ids auto_settings init_agent two_heals = [''h-0'', ''g-0'']"
    by code_simp
  have s: "map (\<lambda>h. hr_status h)
             (dict_values (healings (engine (run auto_settings init_agent two_heals))))
       = [COMPLETED, COMPLETED]"
    by code_simp
  have d: "distinct (registered_ids auto_settings init_agent two_heals)"
    unfolding r by simp
  from archive_always_empty[of auto_settings two_heals] d
  have "get_total_count (engine (run auto_settings init_agent two_heals))
          = int (length (registered_ids auto_settings init_agent two_heals))"
    and "get_success_rate (engine (run auto_settings init_agent two_heals)) = 0"
    by blast+
  then show ?thesis using r s by simp
qed


section \<open>Manual mode\<close>

lemma task_registered_mono:
  assumes "task_registered e t"
    and "\<And>k. dict_get (healings e) k \<noteq> None \<Longrightarrow> dict_get (healings e') k \<noteq> None"
    and "\<And>k. dict_get (states e) k \<noteq> None \<Longrightarrow> dict_get (states e') k \<noteq> None"
  shows "task_registered e' t"
  using assms by (cases t) (simp_all add: task_registered_def get_healing_def get_ooda_state_def)

lemma task_registered_analyze: "task_registered e t \<Longrightarrow> is_analyze t"
  by (cases t) (simp_all add: task_registered_def)

lemma dict_upd_defined: "dict_get (dict_upd d k f) k' \<noteq> None \<longleftrightarrow> dict_get d k' \<noteq> None"
  by (simp add: dict_get_dict_upd)

lemma trigger_healing_manual:
  assumes "trigger_healing settings env e request = Inr (result, e', task)"
    and "healing_mode settings = MANUAL"
  shows "healings e' = dict_set (healings e) (uuid env 0) result"
    and "\<exists>s. states e' = dict_set (states e) (uuid env 0) s"
    and "manual_ok result"
    and "task = AnalyzeOnly (uuid env 0) request"
  using assms
  by (auto simp: trigger_healing_def Let_def new_healing_result_def dict_upd_def dict_get_dict_set
        dict_set_twice manual_ok_def register_healing_def set_result_def split: if_splits)

lemma analyze_only_healings:
  "healings (analyze_only env e hid request) =
     (if dict_get (healings e) hid \<noteq> None \<and> dict_get (states e) hid \<noteq> None
      then dict_upd (healings e) hid
             (\<lambda>r. r\<lparr>hr_status := COMPLETED,
                     result_message := Some ''Analysis complete. Manual action required.'',
                     completed_at := Some (clock env)\<rparr>)
      else healings e)"
  by (auto simp: analyze_only_def Let_def split: option.splits)

lemma analyze_only_states:
  "states (analyze_only env e hid request) =
     (if dict_get (healings e) hid \<noteq> None \<and> dict_get (states e) hid \<noteq> None
      then dict_upd (states e) hid
             (\<lambda>s. s\<lparr>observation := Some (observe request), phase := ''orient'',
                     orientation := Some (orient request (observe request))\<rparr>)
      else states e)"
  by (auto simp: analyze_only_def Let_def dict_upd_twice split: option.splits)

lemma analyze_only_cooldowns: "cooldowns (analyze_only env e hid request) = cooldowns e"
  by (simp add: analyze_only_def Let_def split: option.splits)

lemma manual_ok_completed:
  "manual_ok r \<Longrightarrow> manual_ok (r\<lparr>hr_status := COMPLETED, result_message := m, completed_at := c\<rparr>)"
  by (simp add: manual_ok_def)

lemma manual_ok_cancelled:
  "manual_ok r \<Longrightarrow> manual_ok (r\<lparr>hr_status := CANCELLED, completed_at := c\<rparr>)"
  by (simp add: manual_ok_def)

lemma step_manual_inv:
  assumes m: "healing_mode settings = MANUAL" and inv: "manual_inv a"
  shows "manual_inv (step settings a ev)"
proof (cases ev)
  case (Heal request env)
  show ?thesis
  proof (cases "trigger_healing settings env (engine a) request")
    case (Inl err)
    then show ?thesis unfolding Heal using inv by simp
  next
    case (Inr x)
    obtain result e' task where x: "x = (result, e', task)" by (cases x)
    have t: "trigger_healing settings env (engine a) request = Inr (result, e', task)"
      using Inr x by simp
    note f = trigger_healing_manual[OF t m]
    obtain s where s: "states e' = dict_set (states (engine a)) (uuid env 0) s"
      using f(2) by blast
    have st: "step settings a ev = \<lparr>engine = e', tasks = tasks a @ [task]\<rparr>"
      unfolding Heal by (simp add: t)
    have 1: "list_all manual_ok (dict_values (healings e'))"
      unfolding f(1) using inv f(3) by (simp add: manual_inv_def list_all_dict_set)
    have 2: "task_registered e' t'" if "task_registered (engine a) t'" for t'
      using that by (rule task_registered_mono) (simp_all add: f(1) s dict_get_dict_set)
    have 3: "task_registered e' task"
      unfolding f(4) by (simp add: task_registered_def get_healing_def get_ooda_state_def
          f(1) s dict_get_dict_set)
    from inv have "list_all (task_registered e') (tasks a)"
      unfolding manual_inv_def list_all_iff using 2 by blast
    with 1 3 show ?thesis unfolding st manual_inv_def by simp
  qed
next
  case (Approve hid)
  have "\<exists>err. approve_healing_plan (engine a) hid = Inl err"
  proof (cases "get_healing (engine a) hid")
    case None
    then show ?thesis by (simp add: approve_healing_plan_def)
  next
    case (Some r)
    then have "r \<in> set (dict_values (healings (engine a)))"
      unfolding get_healing_def by (rule dict_get_values)
    with inv have "manual_ok r" by (simp add: manual_inv_def list_all_iff)
    then have "hr_status r \<noteq> DECIDING" by (auto simp: manual_ok_def)
    with Some show ?thesis by (simp add: approve_healing_plan_def)
  qed
  then show ?thesis unfolding Approve using inv by auto
next
  case (Cancel hid env)
  let ?e' = "snd (cancel_healing env (engine a) hid)"
  have h: "healings ?e' = dict_upd (healings (engine a)) hid
             (\<lambda>r. r\<lparr>hr_status := CANCELLED, completed_at := Some (clock env)\<rparr>)"
    and s: "states ?e' = states (engine a)"
    by (simp_all add: cancel_healing_def Let_def)
  have 1: "list_all manual_ok (dict_values (healings ?e'))"
    unfolding h using inv
    by (intro list_all_dict_upd) (simp_all add: manual_inv_def manual_ok_cancelled)
  have 2: "task_registered ?e' t'" if "task_registered (engine a) t'" for t'
    using that by (rule task_registered_mono) (auto simp: h s dict_get_dict_upd)
  from inv have "list_all (task_registered ?e') (tasks a)"
    unfolding manual_inv_def list_all_iff using 2 by blast
  with 1 show ?thesis unfolding Cancel manual_inv_def by simp
next
  case (RunTask i env)
  show ?thesis
  proof (cases "i < length (tasks a)")
    case False
    then show ?thesis unfolding RunTask using inv by simp
  next
    case True
    then have "tasks a ! i \<in> set (tasks a)" by simp
    with inv have r: "task_registered (engine a) (tasks a ! i)"
      by (simp add: manual_inv_def list_all_iff)
    then obtain hid request where ti: "tasks a ! i = AnalyzeOnly hid request"
      by (cases "tasks a ! i") (simp_all add: task_registered_def)
    let ?e' = "analyze_only env (engine a) hid request"
    have st: "step settings a ev
                = \<lparr>engine = ?e', tasks = take i (tasks a) @ drop (Suc i) (tasks a)\<rparr>"
      unfolding RunTask using True by (simp add: ti)
    from r have reg: "dict_get (healings (engine a)) hid \<noteq> None \<and> dict_get (states (engine a)) hid \<noteq> None"
      unfolding ti by (simp add: task_registered_def get_healing_def get_ooda_state_def)
    have h: "healings ?e' = dict_upd (healings (engine a)) hid
             (\<lambda>r. r\<lparr>hr_status := COMPLETED,
                     result_message := Some ''Analysis complete. Manual action required.'',
                     completed_at := Some (clock env)\<rparr>)"
      using reg by (simp add: analyze_only_healings)
    have s: "states ?e' = dict_upd (states (engine a)) hid
             (\<lambda>s. s\<lparr>observation := Some (observe request), phase := ''orient'',
                     orientation := Some (orient request (observe request))\<rparr>)"
      using reg by (simp add: analyze_only_states)
    have 1: "list_all manual_ok (dict_values (healings ?e'))"
      unfolding h using inv
      by (intro list_all_dict_upd) (simp_all add: manual_inv_def manual_ok_completed)
    have 2: "task_registered ?e' t'" if "task_registered (engine a) t'" for t'
      using that by (rule task_registered_mono) (auto simp: h s dict_get_dict_upd)
    have "set (take i (tasks a) @ drop (Suc i) (tasks a)) \<subseteq> set (tasks a)"
      using set_take_subset set_drop_subset by fastforce
    with inv have "list_all (task_registered ?e') (take i (tasks a) @ drop (Suc i) (tasks a))"
      unfolding manual_inv_def list_all_iff using 2 by blast
    with 1 show ?thesis unfolding st manual_inv_def by simp
  qed
qed

lemma run_manual_inv:
  "healing_mode settings = MANUAL \<Longrightarrow> manual_inv a \<Longrightarrow> manual_inv (run settings a evs)"
  by (induction evs arbitrary: a) (simp_all add: step_manual_inv)

lemma manual_inv_init: "manual_inv init_agent"
  by (simp add: manual_inv_def init_agent_def init_engine_def dict_values_def)


text \<open>
  Claim C8: in manual mode, in every state that a run of the agent reaches from the initial
  one, every healing is being analysed, completed or cancelled (so none is acting), has no
  plan and has executed no action, and every pending task is an analysis. A trigger that
  is admitted registers its healing in the status orienting and adds the task
  \<open>analyze_only\<close>. The run of a pending task writes the observation and the orientation
  into the OODA state, leaves the phase at orient, and ends with the healing completed,
  with the message that manual action is required and the time of completion; it sets
  no cooldown.
\<close>

theorem manual_mode_never_acts:
  assumes "healing_mode settings = MANUAL"
  shows "list_all manual_ok (dict_values (healings (engine (run settings init_agent evs))))
       \<and> list_all is_analyze (tasks (run settings init_agent evs))
       \<and> (\<forall>result e' task.
            trigger_healing settings env (engine (run settings init_agent evs)) request
              = Inr (result, e', task)
            \<longrightarrow> hr_status result = ORIENTING \<and> task = AnalyzeOnly (uuid env 0) request)
       \<and> (i < length (tasks (run settings init_agent evs))
            \<and> tasks (run settings init_agent evs) ! i = AnalyzeOnly hid request' \<longrightarrow>
          (\<exists>r s. get_healing (engine (run settings init_agent evs)) hid = Some r
             \<and> get_ooda_state (engine (run settings init_agent evs)) hid = Some s
             \<and> get_healing
                 (engine (step settings (run settings init_agent evs) (RunTask i env'))) hid
                 = Some (r\<lparr>hr_status := COMPLETED,
                           result_message := Some ''Analysis complete. Manual action required.'',
                           completed_at := Some (clock env')\<rparr>)
             \<and> get_ooda_state
                 (engine (step settings (run settings init_agent evs) (RunTask i env'))) hid
                 = Some (s\<lparr>observation := Some (observe request'), phase := ''orient'',
                           orientation := Some (orient request' (observe request'))\<rparr>)
             \<and> cooldowns (engine (step settings (run settings init_agent evs) (RunTask i env')))
                 = cooldowns (engine (run settings init_agent evs))))"
proof -
  define a where "a = run settings init_agent evs"
  have inv: "manual_inv a"
    unfolding a_def using assms manual_inv_init by (rule run_manual_inv)
  have 1: "list_all manual_ok (dict_values (healings (engine a)))"
    using inv by (simp add: manual_inv_def)
  have 2: "list_all is_analyze (tasks a)"
    using inv task_registered_analyze unfolding manual_inv_def list_all_iff by blast
  have 3: "hr_status result = ORIENTING \<and> task = AnalyzeOnly (uuid env 0) request"
    if "trigger_healing settings env (engine a) request = Inr (result, e', task)"
    for result e' task
    using trigger_healing_Inr(10)[OF that assms] .
  have 4: "\<exists>r s. get_healing (engine a) hid = Some r
             \<and> get_ooda_state (engine a) hid = Some s
             \<and> get_healing (engine (step settings a (RunTask i env'))) hid
                 = Some (r\<lparr>hr_status := COMPLETED,
                           result_message := Some ''Analysis complete. Manual action required.'',
                           completed_at := Some (clock env')\<rparr>)
             \<and> get_ooda_state (engine (step settings a (RunTask i env'))) hid
                 = Some (s\<lparr>observation := Some (observe request'), phase := ''orient'',
                           orientation := Some (orient request' (observe request'))\<rparr>)
             \<and> cooldowns (engine (step settings a (RunTask i env'))) = cooldowns (engine a)"
    if lt: "i < length (tasks a)" and ti: "tasks a ! i = AnalyzeOnly hid request'"
  proof -
    from lt have "tasks a ! i \<in> set (tasks a)" by simp
    with inv have "task_registered (engine a) (tasks a ! i)"
      by (simp add: manual_inv_def list_all_iff)
    then obtain r s where r: "dict_get (healings (engine a)) hid = Some r"
      and s: "dict_get (states (engine a)) hid = Some s"
      unfolding ti by (auto simp: task_registered_def get_healing_def get_ooda_state_def)
    have st: "engine (step settings a (RunTask i env')) = analyze_only env' (engine a) hid request'"
      using lt by (simp add: ti)
    show ?thesis
      unfolding st get_healing_def get_ooda_state_def
      by (simp add: r s analyze_only_healings analyze_only_states analyze_only_cooldowns
            dict_get_dict_upd)
  qed
  from 1 2 3 4 show ?thesis unfolding a_def by blast
qed

theorem manual_mode_never_acts_witness:
  "healing_mode manual_settings = MANUAL
   \<and> list_all manual_ok
       (dict_values (healings (engine (run manual_settings init_agent manual_events))))
   \<and> map hr_status (dict_values (healings (engine (run manual_settings init_agent manual_events))))
       = [COMPLETED]
   \<and> tasks (run manual_settings init_agent manual_events) = []
   \<and> tasks (run manual_settings init_agent [Heal known_request (env_at 0 ''h-'' (StatusCode 200))])
       = [AnalyzeOnly ''h-0'' known_request]
   \<and> map_option (\<lambda>h. (hr_status h, result_message h, completed_at h, actions_executed h))
       (get_healing
         (engine (step manual_settings
            (run manual_settings init_agent [Heal known_request (env_at 0 ''h-'' (StatusCode 200))])
            (RunTask 0 (env_at 1 ''p-'' (StatusCode 200))))) ''h-0'')
       = Some (COMPLETED, Some ''Analysis complete. Manual action required.'',
               Some (timedelta_minutes 1), 0)"
proof -
  let ?env0 = "env_at 0 ''h-'' (StatusCode 200)"
  let ?env1 = "env_at 1 ''p-'' (StatusCode 200)"
  let ?a = "run manual_settings init_agent [Heal known_request ?env0]"
  have m: "healing_mode manual_settings = MANUAL"
    by (simp add: manual_settings_def)
  have st: "map hr_status
              (dict_values (healings (engine (run manual_settings init_agent manual_events))))
            = [COMPLETED]"
    by code_simp
  have ts: "tasks (run manual_settings init_agent manual_events) = []"
    by code_simp
  have t: "tasks ?a = [AnalyzeOnly ''h-0'' known_request]"
    by code_simp
  have c: "clock ?env1 = timedelta_minutes 1"
    by (simp add: env_at_def)
  note inst = manual_mode_never_acts[OF m, of manual_events]
  then have ok: "list_all manual_ok
       (dict_values (healings (engine (run manual_settings init_agent manual_events))))"
    by blast
  have pre: "0 < length (tasks ?a) \<and> tasks ?a ! 0 = AnalyzeOnly ''h-0'' known_request"
    unfolding t by simp
  from manual_mode_never_acts[OF m, of "[Heal known_request ?env0]" _ _ 0 "''h-0''" known_request ?env1]
    pre
  obtain r where r: "get_healing (engine ?a) ''h-0'' = Some r"
    and g: "get_healing (engine (step manual_settings ?a (RunTask 0 ?env1))) ''h-0''
              = Some (r\<lparr>hr_status := COMPLETED,
                        result_message := Some ''Analysis complete. Manual action required.'',
                        completed_at := Some (clock ?env1)\<rparr>)"
    by blast
  from manual_mode_never_acts[OF m, of "[Heal known_request ?env0]"]
  have "list_all manual_ok (dict_values (healings (engine ?a)))"
    by blast
  moreover from r have "r \<in> set (dict_values (healings (engine ?a)))"
    unfolding get_healing_def by (rule dict_get_values)
  ultimately have z: "actions_executed r = 0"
    by (simp add: list_all_iff manual_ok_def)
  have fin: "map_option (\<lambda>h. (hr_status h, result_message h, completed_at h, actions_executed h))
       (get_healing (engine (step manual_settings ?a (RunTask 0 ?env1))) ''h-0'')
       = Some (COMPLETED, Some ''Analysis complete. Manual action required.'',
               Some (timedelta_minutes 1), 0)"
    unfolding g c using z by simp
  from m ok st ts t fin show ?thesis by blast
qed



section \<open>Cooldowns\<close>

lemma generate_plan_only_cooldowns: "cooldowns (generate_plan_only env e hid request) = cooldowns e"
  by (simp add: generate_plan_only_def Let_def split: option.splits)

lemma execute_plan_cooldowns: "cooldowns (execute_plan env e hid) = cooldowns e"
  by (simp add: execute_plan_def Let_def split: option.splits)

lemma cancel_healing_cooldowns: "cooldowns (snd (cancel_healing env e hid)) = cooldowns e"
  by (simp add: cancel_healing_def Let_def)

lemma run_append: "run settings a (xs @ ys) = run settings (run settings a xs) ys"
  by (induction xs arbitrary: a) simp_all

lemma step_no_cooldown:
  assumes m: "healing_mode settings \<noteq> AUTO"
    and c: "cooldowns (engine a) = []"
    and t: "list_all (\<lambda>t. \<not> is_ooda_loop t) (tasks a)"
  shows "cooldowns (engine (step settings a ev)) = []
       \<and> list_all (\<lambda>t. \<not> is_ooda_loop t) (tasks (step settings a ev))"
proof (cases ev)
  case (Heal request env)
  show ?thesis
  proof (cases "trigger_healing settings env (engine a) request")
    case (Inl err)
    then show ?thesis unfolding Heal using c t by simp
  next
    case (Inr x)
    obtain result e' task where x: "x = (result, e', task)" by (cases x)
    have tr: "trigger_healing settings env (engine a) request = Inr (result, e', task)"
      using Inr x by simp
    have st: "step settings a ev = \<lparr>engine = e', tasks = tasks a @ [task]\<rparr>"
      unfolding Heal by (simp add: tr)
    have "\<not> is_ooda_loop task"
      using m trigger_healing_Inr(9)[OF tr] trigger_healing_Inr(10)[OF tr]
      by (cases "healing_mode settings") auto
    moreover have "cooldowns e' = []"
      using trigger_healing_Inr(2)[OF tr] c by simp
    ultimately show ?thesis unfolding st using t by simp
  qed
next
  case (Approve hid)
  have "task = ExecutePlan hid" if "approve_healing_plan (engine a) hid = Inr task" for task
    using that by (auto simp: approve_healing_plan_def split: option.splits if_splits)
  then show ?thesis unfolding Approve using c t by (auto split: sum.splits)
next
  case (Cancel hid env)
  show ?thesis unfolding Cancel using c t by (simp add: cancel_healing_cooldowns)
next
  case (RunTask i env)
  show ?thesis
  proof (cases "i < length (tasks a)")
    case False
    then show ?thesis unfolding RunTask using c t by simp
  next
    case True
    then have "tasks a ! i \<in> set (tasks a)" by simp
    with t have n: "\<not> is_ooda_loop (tasks a ! i)" by (simp add: list_all_iff)
    have "cooldowns (run_task settings env (engine a) (tasks a ! i)) = cooldowns (engine a)"
      using n
      by (cases "tasks a ! i")
         (simp_all add: generate_plan_only_cooldowns analyze_only_cooldowns execute_plan_cooldowns)
    moreover have "set (take i (tasks a) @ drop (Suc i) (tasks a)) \<subseteq> set (tasks a)"
      using set_take_subset set_drop_subset by fastforce
    then have "list_all (\<lambda>t. \<not> is_ooda_loop t) (take i (tasks a) @ drop (Suc i) (tasks a))"
      using t unfolding list_all_iff by blast
    ultimately show ?thesis unfolding RunTask using True c by simp
  qed
qed

lemma run_no_cooldown:
  "healing_mode settings \<noteq> AUTO \<Longrightarrow> cooldowns (engine a) = []
     \<Longrightarrow> list_all (\<lambda>t. \<not> is_ooda_loop t) (tasks a)
     \<Longrightarrow> cooldowns (engine (run settings a evs)) = []"
proof (induction evs arbitrary: a)
  case Nil
  then show ?case by simp
next
  case (Cons ev evs)
  from step_no_cooldown[OF Cons.prems]
  have "cooldowns (engine (step settings a ev)) = []"
    and "list_all (\<lambda>t. \<not> is_ooda_loop t) (tasks (step settings a ev))"
    by blast+
  with Cons.prems(1) have "cooldowns (engine (run settings (step settings a ev) evs)) = []"
    by (rule Cons.IH)
  then show ?case by simp
qed

text \<open>
  Claim C2: a cooldown is set by \<open>run_ooda_loop\<close> alone, which only auto mode runs. In
  semi-auto and manual mode no run of the agent ever sets one, so no service is ever in
  cooldown there: \<open>execute_plan\<close>, which completes a healing after its approval, and
  \<open>analyze_only\<close> leave the cooldowns as they are.
\<close>

theorem no_cooldown_outside_auto_mode:
  assumes "healing_mode settings \<noteq> AUTO"
  shows "cooldowns (engine (run settings init_agent evs)) = []
       \<and> \<not> is_in_cooldown (engine (run settings init_agent evs)) service now
       \<and> cooldowns (execute_plan env e hid) = cooldowns e
       \<and> cooldowns (analyze_only env e hid request) = cooldowns e"
proof -
  have "cooldowns (engine (run settings init_agent evs)) = []"
    using assms by (rule run_no_cooldown) (simp_all add: init_agent_def init_engine_def)
  then show ?thesis
    by (simp add: is_in_cooldown_def execute_plan_cooldowns analyze_only_cooldowns)
qed

theorem no_cooldown_outside_auto_mode_witness:
  "healing_mode semi_settings \<noteq> AUTO
   \<and> map_option hr_status (get_healing (engine semi_agent) ''h-0'') = Some COMPLETED
   \<and> map_option completed_at (get_healing (engine semi_agent) ''h-0'')
       = Some (Some (timedelta_minutes 2))
   \<and> cooldowns (engine semi_agent) = []
   \<and> (\<exists>result e' task.
         trigger_healing semi_settings (env_at 2 ''g-'' (StatusCode 500)) (engine semi_agent)
           other_request = Inr (result, e', task))
   \<and> map_option hr_status (get_healing (engine auto_agent) ''h-0'') = Some COMPLETED
   \<and> cooldowns (engine auto_agent) = [(''checkout'', timedelta_minutes 11)]
   \<and> trigger_healing auto_settings (env_at 2 ''g-'' (StatusCode 200)) (engine auto_agent)
       other_request
       = Inl (HTTPException 429 ''Service checkout is in cooldown period'')"
proof -
  let ?env = "env_at 2 ''g-'' (StatusCode 500)"
  let ?evs = "[Heal known_request (env_at 0 ''h-'' (StatusCode 500)),
               RunTask 0 (env_at 1 ''p-'' (StatusCode 500)),
               Approve ''h-0'']"
  have m: "healing_mode semi_settings \<noteq> AUTO"
    by (simp add: semi_settings_def)
  have s: "semi_agent
             = run semi_settings init_agent (?evs @ [RunTask 0 (env_at 2 ''q-'' (StatusCode 500))])"
    unfolding semi_agent_def planned_agent_def run_append ..
  have st: "map_option hr_status (get_healing (engine semi_agent) ''h-0'') = Some COMPLETED"
    by code_simp
  have ct: "map_option completed_at (get_healing (engine semi_agent) ''h-0'')
              = Some (Some (timedelta_minutes 2))"
    by code_simp
  from no_cooldown_outside_auto_mode[OF m, of "?evs @ [RunTask 0 (env_at 2 ''q-'' (StatusCode 500))]"]
  have c: "cooldowns (engine semi_agent) = []"
    unfolding s by blast
  have h: "\<not> is_healing (engine semi_agent) (rq_incident_id other_request)"
    by code_simp
  have n: "\<not> max_concurrent_healings semi_settings \<le> get_active_count (engine semi_agent)"
    by code_simp
  have "\<not> is_in_cooldown (engine semi_agent) (rq_target_service other_request) (clock ?env)"
    by (simp add: is_in_cooldown_def c)
  with h n have adm: "\<exists>result e' task.
         trigger_healing semi_settings ?env (engine semi_agent) other_request
           = Inr (result, e', task)"
    by (simp add: trigger_healing_def Let_def semi_settings_def)
  have a1: "map_option hr_status (get_healing (engine auto_agent) ''h-0'') = Some COMPLETED"
    by code_simp
  have a2: "cooldowns (engine auto_agent) = [(''checkout'', timedelta_minutes 11)]"
    by code_simp
  have a3: "trigger_healing auto_settings (env_at 2 ''g-'' (StatusCode 200)) (engine auto_agent)
       other_request
       = Inl (HTTPException 429 ''Service checkout is in cooldown period'')"
    by code_simp
  from m st ct c adm a1 a2 a3 show ?thesis by blast
qed

end
